theory Spec2Isabelle
  imports Complex_Main "HOL-Library.AList"
begin

section \<open>Strings\<close>

text \<open>
  A JavaScript string is modelled as a \<^typ>\<open>string\<close>.  The helpers below are the
  string primitives the two services use: \<open>String.prototype.startsWith\<close>, the ASCII
  case folding of a regular expression with the \<open>i\<close> flag, and the decimal rendering
  of a non-negative integer inside a template literal.
\<close>

definition startsWith :: "string \<Rightarrow> string \<Rightarrow> bool" where
  "startsWith s p = (take (length p) s = p)"

definition lower_ascii :: "char \<Rightarrow> char" where
  "lower_ascii c =
     (if (65::nat) \<le> of_char c \<and> of_char c \<le> (90::nat)
      then char_of (of_char c + (32::nat)) else c)"

text \<open>\<open>ci_prefix p s\<close>: the lower-case literal \<open>p\<close> matches at the start of \<open>s\<close>,
  letters compared without regard to case.\<close>

fun ci_prefix :: "string \<Rightarrow> string \<Rightarrow> bool" where
  "ci_prefix [] s = True"
| "ci_prefix (p # ps) [] = False"
| "ci_prefix (p # ps) (c # cs) = (if lower_ascii c = p then ci_prefix ps cs else False)"

definition digit_char :: "nat \<Rightarrow> char" where
  "digit_char d = char_of (48 + d)"

fun show_nat :: "nat \<Rightarrow> string" where
  "show_nat n = (if n < 10 then [digit_char n] else show_nat (n div 10) @ [digit_char (n mod 10)])"

declare show_nat.simps [simp del]

section \<open>The HTML fetcher service\<close>

subsection \<open>Errors and the network\<close>

text \<open>
  A thrown JavaScript error is a value: \<open>Error m\<close> carries the message the code reads
  through \<open>error.message\<close>; \<open>TypeError\<close> is the engine's error for a property read on
  \<open>null\<close> or \<open>undefined\<close> and for a call of something that is not a function.
\<close>

datatype error = Error string | TypeError

text \<open>
  What \<open>node-fetch\<close> delivers for one request: the promise rejects with a message
  (time-out, refused connection, too many redirects), or a response arrives with a status
  code, a status text and a body.  The network is a function from the request number and
  the location to such an outcome; request \<open>0\<close> is the main document and request
  \<open>i + 1\<close> the iframe at index \<open>i\<close>, so two requests for one location are independent.
\<close>

datatype response = Rejects string | Response nat string string

type_synonym network = "nat \<Rightarrow> string \<Rightarrow> response"

definition fetchUrl :: "network \<Rightarrow> nat \<Rightarrow> string \<Rightarrow> error + string" where
  "fetchUrl net k url =
     (case net k url of
        Rejects m \<Rightarrow> Inl (Error m)
      | Response status statusText body \<Rightarrow>
          if \<not> (200 \<le> status \<and> status < 300)
          then Inl (Error (''HTTP '' @ show_nat status @ '': '' @ statusText))
          else Inr body)"

subsection \<open>The platform's URL class\<close>

text \<open>
  \<open>new URL(baseUrl).origin\<close> and \<open>new URL(src, origin).href\<close> are routines of the
  platform, not of this repository; they are parameters of the model.  \<open>None\<close> is the
  constructor throwing on an invalid location.
\<close>

record url_platform =
  URL_origin :: "string \<Rightarrow> string option"
  URL_href :: "string \<Rightarrow> string \<Rightarrow> string option"

subsection \<open>Iframe discovery\<close>

text \<open>
  The regular expression \<^verbatim>\<open>/<iframe[^>]+src=["']([^"']+)["']/gi\<close>, read as the
  backtracking matcher does.  \<open>after_gap\<close> matches the tail
  \<^verbatim>\<open>src=["']([^"']+)["']\<close> at the start of its argument and returns the capture and
  the text after the match: the capture is the longest run of characters that are not
  quotes, it is not empty, and a quote follows it.
\<close>

definition is_quote :: "char \<Rightarrow> bool" where
  "is_quote c = (c = CHR 0x22 \<or> c = CHR 0x27)"

definition after_gap :: "string \<Rightarrow> (string \<times> string) option" where
  "after_gap t =
     (if ci_prefix ''src='' t then
        (case drop 4 t of
           [] \<Rightarrow> None
         | q # v \<Rightarrow>
             if is_quote q then
               (let cap = takeWhile (\<lambda>c. \<not> is_quote c) v;
                    w = dropWhile (\<lambda>c. \<not> is_quote c) v
                in if cap \<noteq> [] \<and> w \<noteq> [] then Some (cap, tl w) else None)
             else None)
      else None)"

text \<open>
  \<^verbatim>\<open>[^>]+\<close> is greedy: it first takes every character up to the next \<^verbatim>\<open>>\<close>, and
  returns them one at a time, down to a single character, until the tail matches.
\<close>

fun backtrack :: "nat \<Rightarrow> string \<Rightarrow> (string \<times> string) option" where
  "backtrack 0 r = None"
| "backtrack (Suc k) r =
     (case after_gap (drop (Suc k) r) of
        Some m \<Rightarrow> Some m
      | None \<Rightarrow> backtrack k r)"

definition match_here :: "string \<Rightarrow> (string \<times> string) option" where
  "match_here s =
     (if ci_prefix ''<iframe'' s
      then (let r = drop 7 s in backtrack (length (takeWhile (\<lambda>c. c \<noteq> CHR ''>'') r)) r)
      else None)"

text \<open>\<open>exec\<close>: the leftmost match at or after the start of the text.\<close>

fun exec :: "string \<Rightarrow> (string \<times> string) option" where
  "exec [] = None"
| "exec (c # cs) =
     (case match_here (c # cs) of
        Some m \<Rightarrow> Some m
      | None \<Rightarrow> exec cs)"

text \<open>
  The body of the \<open>while\<close> loop for one matched source: \<open>None\<close> is \<open>continue\<close>,
  \<open>Some\<close> is the value pushed.
\<close>

definition resolve_src :: "url_platform \<Rightarrow> string \<Rightarrow> string \<Rightarrow> string option" where
  "resolve_src P baseUrl src =
     (if startsWith src ''data:'' \<or> startsWith src ''javascript:'' \<or> src = ''about:blank''
      then None
      else if \<not> startsWith src ''http://'' \<and> \<not> startsWith src ''https://''
      then (case URL_origin P baseUrl of
              None \<Rightarrow> None
            | Some origin \<Rightarrow> URL_href P src origin)
      else Some src)"


lemma after_gap_shorter: "after_gap t = Some (c, r) \<Longrightarrow> length r < length t"
proof -
  assume a: "after_gap t = Some (c, r)"
  then obtain q v where t4: "drop 4 t = q # v"
    and r: "r = tl (dropWhile (\<lambda>c. \<not> is_quote c) v)"
    by (auto simp: after_gap_def Let_def split: if_splits list.splits)
  have "length r \<le> length v"
    using r length_dropWhile_le [of "\<lambda>c. \<not> is_quote c" v] by simp
  moreover have "length v < length t"
    using t4 by (metis length_drop length_Cons less_Suc_eq_le diff_le_self impossible_Cons linorder_not_le)
  ultimately show ?thesis by simp
qed

lemma backtrack_shorter: "backtrack k r = Some (c, r') \<Longrightarrow> length r' < length r"
proof (induction k)
  case 0
  then show ?case by simp
next
  case (Suc k)
  show ?case
  proof (cases "after_gap (drop (Suc k) r)")
    case None
    with Suc show ?thesis by simp
  next
    case (Some m)
    with Suc.prems have "after_gap (drop (Suc k) r) = Some (c, r')" by simp
    from after_gap_shorter [OF this] show ?thesis by simp
  qed
qed

lemma match_here_shorter: "match_here s = Some (c, r) \<Longrightarrow> length r < length s"
  by (auto simp: match_here_def Let_def split: if_splits dest!: backtrack_shorter)

lemma exec_shorter: "exec s = Some (c, r) \<Longrightarrow> length r < length s"
proof (induction s)
  case Nil
  then show ?case by simp
next
  case (Cons x xs)
  show ?case
  proof (cases "match_here (x # xs)")
    case None
    with Cons show ?thesis by fastforce
  next
    case (Some m)
    with Cons.prems have "match_here (x # xs) = Some (c, r)" by simp
    from match_here_shorter [OF this] show ?thesis .
  qed
qed

text \<open>
  The \<open>while\<close> loop of \<open>extractIframeSrcs\<close>: \<open>iframeRegex.exec(html)\<close> resumes after the
  previous match (the expression is global), and the loop ends at the first \<open>null\<close>.
  The array \<open>iframeSrcs\<close> is the list of the values pushed, in the order pushed.
\<close>

function scan :: "url_platform \<Rightarrow> string \<Rightarrow> string \<Rightarrow> string list" where
  "scan P baseUrl s =
     (case exec s of
        None \<Rightarrow> []
      | Some (src, rest) \<Rightarrow>
          (case resolve_src P baseUrl src of
             None \<Rightarrow> scan P baseUrl rest
           | Some a \<Rightarrow> a # scan P baseUrl rest))"
  by pat_completeness auto
termination
  by (relation "measure (\<lambda>(P, b, s). length s)") (auto dest: exec_shorter)

declare scan.simps [simp del]

definition extractIframeSrcs :: "url_platform \<Rightarrow> string \<Rightarrow> string \<Rightarrow> string list" where
  "extractIframeSrcs P html baseUrl = scan P baseUrl html"

subsection \<open>Fetching and combining\<close>

record iframe =
  src :: string
  content :: string
  success :: bool
  error :: "string option"

definition marker :: "nat \<Rightarrow> string \<Rightarrow> string" where
  "marker index s =
     [CHR 0x0A, CHR 0x0A] @ ''<!-- ========== IFRAME '' @ show_nat (index + 1) @ '' CONTENT: '' @ s
       @ '' ========== -->'' @ [CHR 0x0A, CHR 0x0A]"

text \<open>\<open>forEach\<close> with its index; an empty string is falsy, so \<open>iframe.success && iframe.content\<close>
  holds for a fetched frame whose body is not empty.\<close>

fun combine_from :: "nat \<Rightarrow> string \<Rightarrow> iframe list \<Rightarrow> string" where
  "combine_from index combined [] = combined"
| "combine_from index combined (f # fs) =
     combine_from (Suc index)
       (if success f \<and> content f \<noteq> [] then combined @ marker index (src f) @ content f
        else combined)
       fs"

definition combineHtml :: "string \<Rightarrow> iframe list \<Rightarrow> string" where
  "combineHtml mainHtml iframeContents = combine_from 0 mainHtml iframeContents"

record stats =
  totalIframes :: int
  successfulIframes :: int
  failedIframes :: int

record fetched =
  mainHtml :: string
  iframes :: "iframe list"
  combinedHtml :: string
  stats :: "stats option"

text \<open>The callback of \<open>iframeSrcs.map\<close>: one request per source, its failure caught.\<close>

definition fetch_iframe :: "network \<Rightarrow> nat \<Rightarrow> string \<Rightarrow> iframe" where
  "fetch_iframe net index s =
     (case fetchUrl net (index + 1) s of
        Inr c \<Rightarrow> \<lparr>src = s, content = c, success = True, error = None\<rparr>
      | Inl e \<Rightarrow>
          \<lparr>src = s, content = [], success = False,
           error = Some (case e of Error m \<Rightarrow> m | TypeError \<Rightarrow> [])\<rparr>)"

definition fetchWithIframes :: "url_platform \<Rightarrow> network \<Rightarrow> string \<Rightarrow> error + fetched" where
  "fetchWithIframes P net url =
     (case fetchUrl net 0 url of
        Inl e \<Rightarrow> Inl e
      | Inr main \<Rightarrow>
          (let iframeSrcs = extractIframeSrcs P main url in
           if length iframeSrcs = 0
           then Inr \<lparr>mainHtml = main, iframes = [], combinedHtml = main, stats = None\<rparr>
           else
             (let iframeContents = map (\<lambda>(index, s). fetch_iframe net index s)
                                       (enumerate 0 iframeSrcs);
                  successful = int (length (filter success iframeContents))
              in Inr \<lparr>mainHtml = main, iframes = iframeContents,
                      combinedHtml = combineHtml main iframeContents,
                      stats = Some \<lparr>totalIframes = int (length iframeSrcs),
                                    successfulIframes = successful,
                                    failedIframes = int (length iframeSrcs) - successful\<rparr>\<rparr>)))"


section \<open>JavaScript numbers and values\<close>

subsection \<open>Numbers\<close>

text \<open>
  A JavaScript number is an IEEE 754 binary64 value.  A finite one is modelled as the
  rational it denotes; the two infinities and \<open>NaN\<close> are values of their own.  The sign of
  zero is not tracked: the code never divides by a computed zero other than the length of
  an array, which is \<open>+0\<close>.
\<close>

datatype jsnum = Fin rat | PInf | NInf | NaN

fun bits :: "nat \<Rightarrow> nat" where
  "bits n = (if n = 0 then 0 else Suc (bits (n div 2)))"

declare bits.simps [simp del]

text \<open>\<open>ilog2 a\<close> is \<open>\<lfloor>log\<^sub>2 a\<rfloor>\<close> for a positive rational \<open>a\<close>.\<close>

definition ilog2 :: "rat \<Rightarrow> int" where
  "ilog2 a =
     (let (p, q) = quotient_of a;
          d = int (bits (nat p)) - int (bits (nat q))
      in if 2 powi d \<le> a then d else d - 1)"

definition round_even :: "rat \<Rightarrow> int" where
  "round_even x =
     (let f = \<lfloor>x\<rfloor>; d = x - of_int f
      in if d < 1 / 2 then f else if 1 / 2 < d then f + 1 else if even f then f else f + 1)"

text \<open>
  \<open>fl q\<close> rounds the exact result \<open>q\<close> of an operation to binary64, to nearest with ties
  to even: 53 significant bits, the exponent of the least bit not below \<open>-1074\<close>, and an
  infinity when the rounded magnitude reaches \<open>2\<^sup>1\<^sup>0\<^sup>2\<^sup>4\<close>.
\<close>

definition fl :: "rat \<Rightarrow> jsnum" where
  "fl q =
     (if q = 0 then Fin 0
      else
        (let a = \<bar>q\<bar>;
             e = max (ilog2 a) (- 1022);
             n = round_even (a / 2 powi (e - 52))
         in if 1023 < e \<or> (e = 1023 \<and> n = 9007199254740992)
            then (if 0 < q then PInf else NInf)
            else Fin ((if 0 < q then 1 else - 1) * of_int n * 2 powi (e - 52))))"

fun num_add :: "jsnum \<Rightarrow> jsnum \<Rightarrow> jsnum" where
  "num_add NaN y = NaN"
| "num_add x NaN = NaN"
| "num_add PInf NInf = NaN"
| "num_add NInf PInf = NaN"
| "num_add PInf y = PInf"
| "num_add x PInf = PInf"
| "num_add NInf y = NInf"
| "num_add x NInf = NInf"
| "num_add (Fin a) (Fin b) = fl (a + b)"

fun num_sub :: "jsnum \<Rightarrow> jsnum \<Rightarrow> jsnum" where
  "num_sub NaN y = NaN"
| "num_sub x NaN = NaN"
| "num_sub PInf PInf = NaN"
| "num_sub NInf NInf = NaN"
| "num_sub PInf y = PInf"
| "num_sub x PInf = NInf"
| "num_sub NInf y = NInf"
| "num_sub x NInf = PInf"
| "num_sub (Fin a) (Fin b) = fl (a - b)"

fun num_mul :: "jsnum \<Rightarrow> jsnum \<Rightarrow> jsnum" where
  "num_mul NaN y = NaN"
| "num_mul x NaN = NaN"
| "num_mul PInf PInf = PInf"
| "num_mul PInf NInf = NInf"
| "num_mul NInf PInf = NInf"
| "num_mul NInf NInf = PInf"
| "num_mul PInf (Fin b) = (if b = 0 then NaN else if 0 < b then PInf else NInf)"
| "num_mul NInf (Fin b) = (if b = 0 then NaN else if 0 < b then NInf else PInf)"
| "num_mul (Fin a) PInf = (if a = 0 then NaN else if 0 < a then PInf else NInf)"
| "num_mul (Fin a) NInf = (if a = 0 then NaN else if 0 < a then NInf else PInf)"
| "num_mul (Fin a) (Fin b) = fl (a * b)"

fun num_div :: "jsnum \<Rightarrow> jsnum \<Rightarrow> jsnum" where
  "num_div NaN y = NaN"
| "num_div x NaN = NaN"
| "num_div PInf PInf = NaN"
| "num_div PInf NInf = NaN"
| "num_div NInf PInf = NaN"
| "num_div NInf NInf = NaN"
| "num_div PInf (Fin b) = (if b < 0 then NInf else PInf)"
| "num_div NInf (Fin b) = (if b < 0 then PInf else NInf)"
| "num_div (Fin a) PInf = Fin 0"
| "num_div (Fin a) NInf = Fin 0"
| "num_div (Fin a) (Fin b) =
     (if b = 0 then (if a = 0 then NaN else if 0 < a then PInf else NInf)
      else fl (a / b))"

text \<open>\<open>Math.round\<close>: the nearest integer, a tie going up.\<close>

fun Math_round :: "jsnum \<Rightarrow> jsnum" where
  "Math_round (Fin x) = Fin (of_int \<lfloor>x + 1 / 2\<rfloor>)"
| "Math_round x = x"

text \<open>
  \<open>parseFloat(x.toFixed(6))\<close>: \<open>toFixed\<close> prints the integer \<open>n\<close> nearest to
  \<open>|x| \<times> 10\<^sup>6\<close> (the larger of two) with six decimals and the sign of \<open>x\<close>, and
  \<open>parseFloat\<close> reads the decimal back as the nearest binary64 value.  From
  \<open>10\<^sup>2\<^sup>1\<close> on, and for an infinity or \<open>NaN\<close>, \<open>toFixed\<close> prints the number as
  \<open>String\<close> does, which \<open>parseFloat\<close> reads back unchanged.
\<close>

fun toFixed6 :: "jsnum \<Rightarrow> jsnum" where
  "toFixed6 (Fin x) =
     (if 10 ^ 21 \<le> \<bar>x\<bar> then Fin x
      else fl ((if x < 0 then - 1 else 1) * of_int \<lfloor>\<bar>x\<bar> * 10 ^ 6 + 1 / 2\<rfloor> / 10 ^ 6))"
| "toFixed6 x = x"

subsection \<open>Values\<close>

text \<open>
  A value read from JSON or built by an object literal.  An object is the list of its
  own properties; a read takes the first entry for a key and a write replaces it in
  place or appends a new one (\<^const>\<open>AList.update\<close>).
\<close>

datatype jsval =
    JUndefined
  | JNull
  | JBool bool
  | JNum jsnum
  | JStr string
  | JArr "jsval list"
  | JObj "(string \<times> jsval) list"

text \<open>
  The routines of the engine that this repository calls and does not define:
  \<open>JSON.parse\<close> (\<open>Inl\<close> is the message of the \<open>SyntaxError\<close> it throws) and the
  conversion of a number to a string.
\<close>

record engine =
  JSON_parse :: "string \<Rightarrow> string + jsval"
  Number_toString :: "jsnum \<Rightarrow> string"

text \<open>
  \<open>get_prop v k\<close> is the read \<open>v.k\<close> for a value \<open>v\<close> that is neither \<open>null\<close> nor
  \<open>undefined\<close>, and a key \<open>k\<close> that is neither an index nor \<open>length\<close> (the service
  reads no other key from a value it did not build): a primitive and an array have no
  such property.
\<close>

fun get_prop :: "jsval \<Rightarrow> string \<Rightarrow> jsval" where
  "get_prop (JObj kvs) k = (case map_of kvs k of Some v \<Rightarrow> v | None \<Rightarrow> JUndefined)"
| "get_prop v k = JUndefined"

text \<open>\<open>v?.k\<close>\<close>

definition opt_prop :: "jsval \<Rightarrow> string \<Rightarrow> jsval" where
  "opt_prop v k = (if v = JUndefined \<or> v = JNull then JUndefined else get_prop v k)"

text \<open>The own enumerable properties that \<open>{...v}\<close> copies.\<close>

fun own_props :: "jsval \<Rightarrow> (string \<times> jsval) list" where
  "own_props (JObj kvs) = kvs"
| "own_props (JArr xs) = map (\<lambda>(i, x). (show_nat i, x)) (enumerate 0 xs)"
| "own_props (JStr s) = map (\<lambda>(i, c). (show_nat i, JStr [c])) (enumerate 0 s)"
| "own_props v = []"

text \<open>An object literal \<open>{...v, k\<^sub>1: v\<^sub>1, \<dots>}\<close>: the properties are defined from left to right.\<close>

definition obj_lit :: "(string \<times> jsval) list \<Rightarrow> (string \<times> jsval) list \<Rightarrow> jsval" where
  "obj_lit base kvs = JObj (foldl (\<lambda>al (k, v). AList.update k v al) base kvs)"

fun truthy :: "jsval \<Rightarrow> bool" where
  "truthy JUndefined = False"
| "truthy JNull = False"
| "truthy (JBool b) = b"
| "truthy (JNum n) = (n \<noteq> Fin 0 \<and> n \<noteq> NaN)"
| "truthy (JStr s) = (s \<noteq> [])"
| "truthy (JArr xs) = True"
| "truthy (JObj kvs) = True"

text \<open>\<open>v || 0\<close>\<close>

definition or0 :: "jsval \<Rightarrow> jsval" where
  "or0 v = (if truthy v then v else JNum (Fin 0))"

text \<open>
  The conversion of a value to a string, as a template literal and the operator \<open>+\<close>
  perform it.  An object read from JSON, or copied from one by a spread, has data
  properties only, none of them callable.  When it has an own property \<open>toString\<close>,
  that property hides \<open>Object.prototype.toString\<close>, and \<open>valueOf\<close> (the inherited one
  returns the object itself, an own one is not callable) gives no primitive either: the
  conversion throws a \<open>TypeError\<close>.  Otherwise the object prints as
  \<^verbatim>\<open>[object Object]\<close>.  An array prints its elements joined by commas, \<open>null\<close> and
  \<open>undefined\<close> as nothing, and throws when the conversion of an element does.
\<close>

fun to_str :: "engine \<Rightarrow> jsval \<Rightarrow> error + string"
  and join_elems :: "engine \<Rightarrow> jsval list \<Rightarrow> error + string" where
  "to_str E JUndefined = Inr ''undefined''"
| "to_str E JNull = Inr ''null''"
| "to_str E (JBool b) = Inr (if b then ''true'' else ''false'')"
| "to_str E (JNum n) = Inr (Number_toString E n)"
| "to_str E (JStr s) = Inr s"
| "to_str E (JArr xs) = join_elems E xs"
| "to_str E (JObj kvs) =
     (if map_of kvs ''toString'' = None then Inr ''[object Object]'' else Inl TypeError)"
| "join_elems E [] = Inr []"
| "join_elems E (x # xs) =
     (case (if x = JUndefined \<or> x = JNull then Inr [] else to_str E x) of
        Inl e \<Rightarrow> Inl e
      | Inr s \<Rightarrow>
          if xs = [] then Inr s
          else (case join_elems E xs of Inl e \<Rightarrow> Inl e | Inr t \<Rightarrow> Inr (s @ '','' @ t)))"

text \<open>
  The operator \<open>+\<close>: an array or an object is first converted to a string; if either
  operand is then a string the result is the concatenation, otherwise the sum of the
  operands as numbers.
\<close>

fun stringy :: "jsval \<Rightarrow> bool" where
  "stringy (JStr s) = True"
| "stringy (JArr xs) = True"
| "stringy (JObj kvs) = True"
| "stringy v = False"

fun to_num :: "jsval \<Rightarrow> jsnum" where
  "to_num JNull = Fin 0"
| "to_num (JBool b) = Fin (if b then 1 else 0)"
| "to_num (JNum n) = n"
| "to_num v = NaN"

definition js_add :: "engine \<Rightarrow> jsval \<Rightarrow> jsval \<Rightarrow> error + jsval" where
  "js_add E a b =
     (if stringy a \<or> stringy b then
        (case to_str E a of
           Inl e \<Rightarrow> Inl e
         | Inr s \<Rightarrow> (case to_str E b of Inl e \<Rightarrow> Inl e | Inr t \<Rightarrow> Inr (JStr (s @ t))))
      else Inr (JNum (num_add (to_num a) (to_num b))))"


section \<open>The Gemini service\<close>

subsection \<open>One call of the model\<close>

text \<open>
  What one request to the remote model delivers: \<open>fetch\<close> or \<open>response.json()\<close> rejects
  with a message; or the response is not \<open>ok\<close>, with its status and the serialised error
  body; or the body arrives.  Of the body the code reads \<open>candidates[0].content\<close>, the
  text of its first part, and the three counters of \<open>usageMetadata\<close>; every level the
  code tests for may be missing.  \<open>elapsed\<close> is \<open>endTime - startTime\<close> and \<open>stamp\<close> the
  ISO time of the reply.
\<close>

record usage_metadata =
  promptTokenCount :: "jsnum option"
  candidatesTokenCount :: "jsnum option"
  totalTokenCount :: "jsnum option"

datatype candidate = Candidate "string option"

record api_data =
  candidates :: "candidate list option"
  usageMetadata :: "usage_metadata option"

datatype api_outcome = ApiRejects string | ApiNotOk nat string | ApiOk api_data

record api_call =
  outcome :: api_outcome
  elapsed :: int
  stamp :: string

record 'a usage =
  inputTokens :: 'a
  outputTokens :: 'a
  totalTokens :: 'a
  inputCost :: 'a
  outputCost :: 'a
  totalCost :: 'a

record reply =
  replyText :: string
  timeTaken :: jsnum
  timestamp :: string
  usage :: "jsnum usage"

text \<open>\<open>x || 0\<close> for a counter that may be missing: \<open>0\<close> and \<open>NaN\<close> are falsy.\<close>

definition count_or0 :: "jsnum option \<Rightarrow> jsnum" where
  "count_or0 x = (case x of None \<Rightarrow> Fin 0 | Some n \<Rightarrow> if n = Fin 0 \<or> n = NaN then Fin 0 else n)"

text \<open>The two rates, as the literals \<open>0.00125\<close> and \<open>0.005\<close> denote them.\<close>

definition input_rate :: jsnum where
  "input_rate = fl (125 / 100000)"

definition output_rate :: jsnum where
  "output_rate = fl (5 / 1000)"

text \<open>The local constants \<open>inputCost\<close>, \<open>outputCost\<close> and \<open>totalCost\<close> of \<open>callGeminiAPI\<close>.\<close>

definition raw_inputCost :: "jsnum \<Rightarrow> jsnum" where
  "raw_inputCost inTok = num_mul (num_div inTok (Fin 1000)) input_rate"

definition raw_outputCost :: "jsnum \<Rightarrow> jsnum" where
  "raw_outputCost outTok = num_mul (num_div outTok (Fin 1000)) output_rate"

definition raw_totalCost :: "jsnum \<Rightarrow> jsnum \<Rightarrow> jsnum" where
  "raw_totalCost inTok outTok = num_add (raw_inputCost inTok) (raw_outputCost outTok)"

definition usage_of :: "usage_metadata option \<Rightarrow> jsnum usage" where
  "usage_of um =
     (let m = (case um of
                 None \<Rightarrow> \<lparr>promptTokenCount = None, candidatesTokenCount = None,
                           totalTokenCount = None\<rparr>
               | Some m \<Rightarrow> m);
          inTok = count_or0 (promptTokenCount m);
          outTok = count_or0 (candidatesTokenCount m);
          total = (case totalTokenCount m of
                     None \<Rightarrow> num_add inTok outTok
                   | Some n \<Rightarrow> if n = Fin 0 \<or> n = NaN then num_add inTok outTok else n)
      in \<lparr>inputTokens = inTok, outputTokens = outTok, totalTokens = total,
          inputCost = toFixed6 (raw_inputCost inTok),
          outputCost = toFixed6 (raw_outputCost outTok),
          totalCost = toFixed6 (raw_totalCost inTok outTok)\<rparr>)"

definition callGeminiAPI :: "api_call \<Rightarrow> error + reply" where
  "callGeminiAPI c =
     (case outcome c of
        ApiRejects m \<Rightarrow> Inl (Error m)
      | ApiNotOk status body \<Rightarrow>
          Inl (Error (''API Error: '' @ show_nat status @ '' - '' @ body))
      | ApiOk data \<Rightarrow>
          (case candidates data of
             Some (Candidate (Some t) # rest) \<Rightarrow>
               Inr \<lparr>replyText = t, timeTaken = Fin (of_int (elapsed c)), timestamp = stamp c,
                    usage = usage_of (usageMetadata data)\<rparr>
           | _ \<Rightarrow> Inl (Error ''Invalid API response structure'')))"

subsection \<open>Locating the JSON in a reply\<close>

text \<open>
  The two regular expressions \<^verbatim>\<open>/```json\n([\s\S]*?)\n```/\<close> and
  \<^verbatim>\<open>/```\n([\s\S]*?)\n```/\<close>.  The capture is lazy: \<open>lazy_capture\<close> extends it one
  character at a time and stops at the first place where the closing literal follows.
  \<open>fence_match\<close> tries the start positions from left to right and returns the capture of
  the first match.
\<close>

definition ticks :: string where
  "ticks = [CHR 0x60, CHR 0x60, CHR 0x60]"

definition fence_close :: string where
  "fence_close = CHR 0x0A # ticks"

fun lazy_capture :: "string \<Rightarrow> string option" where
  "lazy_capture [] = None"
| "lazy_capture (c # cs) =
     (if startsWith (c # cs) fence_close then Some []
      else map_option (Cons c) (lazy_capture cs))"

fun fence_match :: "string \<Rightarrow> string \<Rightarrow> string option" where
  "fence_match opn [] = None"
| "fence_match opn (c # cs) =
     (case (if startsWith (c # cs) opn then lazy_capture (drop (length opn) (c # cs)) else None) of
        Some cap \<Rightarrow> Some cap
      | None \<Rightarrow> fence_match opn cs)"

definition fence_json :: "string \<Rightarrow> string option" where
  "fence_json t = fence_match (ticks @ ''json'' @ [CHR 0x0A]) t"

definition fence_plain :: "string \<Rightarrow> string option" where
  "fence_plain t = fence_match (ticks @ [CHR 0x0A]) t"

text \<open>
  The parsing step shared by \<open>extractForms\<close> and \<open>generateFieldValues\<close>:
  \<open>jsonMatch\<close> is the first of the two matches that is not \<open>null\<close>, and the text handed
  to \<open>JSON.parse\<close> is its capture, or the whole reply when neither expression matches.
\<close>

definition parse_reply :: "engine \<Rightarrow> string \<Rightarrow> string + jsval" where
  "parse_reply E t =
     (case (case fence_json t of Some c \<Rightarrow> Some c | None \<Rightarrow> fence_plain t) of
        Some c \<Rightarrow> JSON_parse E c
      | None \<Rightarrow> JSON_parse E t)"

subsection \<open>The two operations on one reply\<close>

primrec message :: "error \<Rightarrow> string" where
  "message (Error m) = m"
| "message TypeError = []"

definition usage_obj :: "jsnum usage \<Rightarrow> jsval" where
  "usage_obj u =
     JObj [(''inputTokens'', JNum (inputTokens u)), (''outputTokens'', JNum (outputTokens u)),
           (''totalTokens'', JNum (totalTokens u)), (''inputCost'', JNum (inputCost u)),
           (''outputCost'', JNum (outputCost u)), (''totalCost'', JNum (totalCost u))]"

text \<open>The object both operations return: \<open>{...parsedData, performance: {\<dots>}, usage: result.usage}\<close>.\<close>

definition with_meta :: "jsval \<Rightarrow> reply \<Rightarrow> jsval" where
  "with_meta parsedData r =
     obj_lit (own_props parsedData)
       [(''performance'', JObj [(''timeTaken'', JNum (timeTaken r)),
                                (''timestamp'', JStr (timestamp r))]),
        (''usage'', usage_obj (usage r))]"

definition parsed_call :: "string \<Rightarrow> engine \<Rightarrow> api_call \<Rightarrow> error + jsval" where
  "parsed_call prefix E c =
     (case callGeminiAPI c of
        Inl e \<Rightarrow> Inl (Error (prefix @ message e))
      | Inr r \<Rightarrow>
          (case parse_reply E (replyText r) of
             Inl m \<Rightarrow> Inl (Error (prefix @ m))
           | Inr parsedData \<Rightarrow> Inr (with_meta parsedData r)))"

definition extractForms :: "engine \<Rightarrow> api_call \<Rightarrow> error + jsval" where
  "extractForms E c = parsed_call ''Failed to extract forms: '' E c"

text \<open>
  \<open>generateFieldValues\<close> logs \<^verbatim>\<open>${formData.formId || 'unknown'}\<close> before its \<open>try\<close>:
  for \<open>null\<close> the read of \<open>formId\<close> throws a \<open>TypeError\<close>, and so does the conversion
  of a \<open>formId\<close> that has no string; no handler of this function catches either.
\<close>

definition generateFieldValues :: "engine \<Rightarrow> api_call \<Rightarrow> jsval \<Rightarrow> error + jsval" where
  "generateFieldValues E c formData =
     (if formData = JNull \<or> formData = JUndefined then Inl TypeError
      else
        (let formId = get_prop formData ''formId'' in
         case to_str E (if truthy formId then formId else JStr ''unknown'') of
           Inl e \<Rightarrow> Inl e
         | Inr line \<Rightarrow> parsed_call ''Failed to generate field values: '' E c))"


subsection \<open>The complete analysis\<close>

text \<open>
  The surroundings of one run of \<open>analyzeFormsComplete\<close>: the call that extracts the
  forms, the call made for the form at each index, the six readings of \<open>Date.now()\<close> in
  the order the function takes them, and the ISO time of the result.  The prompts are
  built from the page and from each form and only travel to the remote model, whose
  replies are given here, so the page itself is not an argument of the model.
\<close>

record analysis_env =
  extraction :: api_call
  generation :: "nat \<Rightarrow> api_call"
  now :: "nat \<Rightarrow> int"
  isoTime :: string

text \<open>
  The callback of \<open>formsData.forms.map\<close>.  Its \<open>catch\<close> block logs
  \<^verbatim>\<open>${form.formId}\<close> before it builds the entry: for \<open>null\<close> the read throws again,
  and so does the conversion of a \<open>formId\<close> that has no string; the promise of the
  callback then rejects.
\<close>

definition form_entry :: "engine \<Rightarrow> api_call \<Rightarrow> jsval \<Rightarrow> error + jsval" where
  "form_entry E c form =
     (case generateFieldValues E c form of
        Inr vals \<Rightarrow>
          Inr (obj_lit (own_props form)
                 [(''suggestedValues'', get_prop vals ''values''),
                  (''validationStatus'', get_prop vals ''metadata''),
                  (''valueGenerationPerformance'',
                     obj_lit (own_props (get_prop vals ''performance''))
                       [(''usage'', get_prop vals ''usage'')])])
      | Inl e \<Rightarrow>
          if form = JNull \<or> form = JUndefined then Inl TypeError
          else
            (case to_str E (get_prop form ''formId'') of
               Inl t \<Rightarrow> Inl t
             | Inr line \<Rightarrow>
                 Inr (obj_lit (own_props form)
                        [(''suggestedValues'', JNull),
                         (''validationStatus'', JObj [(''error'', JStr (message e))])])))"

text \<open>\<open>Promise.all\<close>: the results in the order of the promises, or the rejection of one.\<close>

fun promise_all :: "(error + 'a) list \<Rightarrow> error + 'a list" where
  "promise_all [] = Inr []"
| "promise_all (Inl e # ps) = Inl e"
| "promise_all (Inr x # ps) = (case promise_all ps of Inl e \<Rightarrow> Inl e | Inr xs \<Rightarrow> Inr (x # xs))"

text \<open>
  The callback of \<open>reduce\<close> and its initial accumulator.  The six additions run in the
  order of the source; one that throws ends the callback, and with it the analysis.
\<close>

definition and_then :: "error + 'a \<Rightarrow> ('a \<Rightarrow> error + 'b) \<Rightarrow> error + 'b" where
  "and_then r f = (case r of Inl e \<Rightarrow> Inl e | Inr x \<Rightarrow> f x)"

definition usage_step :: "engine \<Rightarrow> jsval usage \<Rightarrow> jsval \<Rightarrow> error + jsval usage" where
  "usage_step E acc form =
     (let u = opt_prop (get_prop form ''valueGenerationPerformance'') ''usage'' in
      if truthy u then
        and_then (js_add E (inputTokens acc) (or0 (get_prop u ''inputTokens''))) (\<lambda>it.
        and_then (js_add E (outputTokens acc) (or0 (get_prop u ''outputTokens''))) (\<lambda>ot.
        and_then (js_add E (totalTokens acc) (or0 (get_prop u ''totalTokens''))) (\<lambda>tt.
        and_then (js_add E (inputCost acc) (or0 (get_prop u ''inputCost''))) (\<lambda>ic.
        and_then (js_add E (outputCost acc) (or0 (get_prop u ''outputCost''))) (\<lambda>oc.
        and_then (js_add E (totalCost acc) (or0 (get_prop u ''totalCost''))) (\<lambda>tc.
          Inr \<lparr>inputTokens = it, outputTokens = ot, totalTokens = tt,
               inputCost = ic, outputCost = oc, totalCost = tc\<rparr>))))))
      else Inr acc)"

text \<open>\<open>Array.prototype.reduce\<close> with a callback that may throw.\<close>

fun reduce :: "('b \<Rightarrow> 'a \<Rightarrow> error + 'b) \<Rightarrow> 'b \<Rightarrow> 'a list \<Rightarrow> error + 'b" where
  "reduce f acc [] = Inr acc"
| "reduce f acc (x # xs) = (case f acc x of Inl e \<Rightarrow> Inl e | Inr acc' \<Rightarrow> reduce f acc' xs)"

definition initial_usage :: "jsval \<Rightarrow> jsval usage" where
  "initial_usage formsData =
     (let u = get_prop formsData ''usage'' in
      \<lparr>inputTokens = or0 (opt_prop u ''inputTokens''),
       outputTokens = or0 (opt_prop u ''outputTokens''),
       totalTokens = or0 (opt_prop u ''totalTokens''),
       inputCost = or0 (opt_prop u ''inputCost''),
       outputCost = or0 (opt_prop u ''outputCost''),
       totalCost = or0 (opt_prop u ''totalCost'')\<rparr>)"

text \<open>\<open>parseFloat(v.toFixed(6))\<close>: only a number has the method \<open>toFixed\<close>.\<close>

fun fixed6 :: "jsval \<Rightarrow> error + jsval" where
  "fixed6 (JNum n) = Inr (JNum (toFixed6 n))"
| "fixed6 v = Inl TypeError"

definition totalUsage_obj :: "jsval usage \<Rightarrow> error + jsval" where
  "totalUsage_obj acc =
     (case fixed6 (inputCost acc) of
        Inl e \<Rightarrow> Inl e
      | Inr ic \<Rightarrow>
          (case fixed6 (outputCost acc) of
             Inl e \<Rightarrow> Inl e
           | Inr oc \<Rightarrow>
               (case fixed6 (totalCost acc) of
                  Inl e \<Rightarrow> Inl e
                | Inr tc \<Rightarrow>
                    Inr (obj_lit
                           [(''inputTokens'', inputTokens acc),
                            (''outputTokens'', outputTokens acc),
                            (''totalTokens'', totalTokens acc),
                            (''inputCost'', inputCost acc),
                            (''outputCost'', outputCost acc),
                            (''totalCost'', totalCost acc)]
                           [(''inputCost'', ic), (''outputCost'', oc), (''totalCost'', tc)]))))"

definition performance_obj :: "analysis_env \<Rightarrow> nat \<Rightarrow> jsval" where
  "performance_obj env n =
     (let extractionTime = num_sub (Fin (of_int (now env 2))) (Fin (of_int (now env 1)));
          valueGenerationTime = num_sub (Fin (of_int (now env 4))) (Fin (of_int (now env 3)));
          totalTime = num_sub (Fin (of_int (now env 5))) (Fin (of_int (now env 0)))
      in JObj [(''extractionTime'', JNum extractionTime),
               (''valueGenerationTime'', JNum valueGenerationTime),
               (''totalTime'', JNum totalTime),
               (''averageTimePerForm'',
                  JNum (Math_round (num_div valueGenerationTime (Fin (of_nat n)))))])"

text \<open>
  \<open>formsData.forms.length\<close> throws for a missing \<open>forms\<close>, and \<open>formsData.forms.map\<close>
  is a function only for an array.  An error of the extraction, of \<open>Promise.all\<close>, of
  \<open>reduce\<close> or of the final object literal is rethrown unchanged by the outer handler.
\<close>

definition analyzeFormsComplete :: "engine \<Rightarrow> analysis_env \<Rightarrow> error + jsval" where
  "analyzeFormsComplete E env =
     (case extractForms E (extraction env) of
        Inl e \<Rightarrow> Inl e
      | Inr formsData \<Rightarrow>
          (case get_prop formsData ''forms'' of
             JArr fs \<Rightarrow>
               (case promise_all (map (\<lambda>(i, form). form_entry E (generation env i) form)
                                      (enumerate 0 fs)) of
                  Inl e \<Rightarrow> Inl e
                | Inr formsWithValues \<Rightarrow>
                    (case and_then (reduce (usage_step E) (initial_usage formsData)
                                      formsWithValues)
                            totalUsage_obj of
                       Inl e \<Rightarrow> Inl e
                     | Inr totalUsage \<Rightarrow>
                         Inr (obj_lit (own_props formsData)
                                [(''forms'', JArr formsWithValues),
                                 (''timestamp'', JStr (isoTime env)),
                                 (''performance'', performance_obj env (length fs)),
                                 (''totalUsage'', totalUsage)])))
           | _ \<Rightarrow> Inl TypeError))"


section \<open>A reference engine\<close>

text \<open>
  The theorems below hold for every engine and every URL class.  To run the services on
  concrete replies, this section gives one instance: a parser for the JSON grammar
  (ECMA-404) as \<open>JSON.parse\<close> reads it, and a URL class for plain \<open>http\<close> and \<open>https\<close>
  locations.  A string of the model has characters up to \<open>U+00FF\<close>, so an escape
  \<^verbatim>\<open>\uXXXX\<close> above that has no image and the reference parser rejects it; the text of
  the \<open>SyntaxError\<close> is one fixed message.
\<close>

definition is_ws :: "char \<Rightarrow> bool" where
  "is_ws c = (c = CHR 0x20 \<or> c = CHR 0x09 \<or> c = CHR 0x0A \<or> c = CHR 0x0D)"

definition skip_ws :: "string \<Rightarrow> string" where
  "skip_ws s = dropWhile is_ws s"

definition is_digit :: "char \<Rightarrow> bool" where
  "is_digit c = ((48::nat) \<le> of_char c \<and> of_char c \<le> (57::nat))"

definition digits_val :: "string \<Rightarrow> nat" where
  "digits_val ds = foldl (\<lambda>a c. 10 * a + (of_char c - 48)) 0 ds"

definition hex_val :: "char \<Rightarrow> nat option" where
  "hex_val c =
     (let n = (of_char c :: nat) in
      if 48 \<le> n \<and> n \<le> 57 then Some (n - 48)
      else if 65 \<le> n \<and> n \<le> 70 then Some (n - 55)
      else if 97 \<le> n \<and> n \<le> 102 then Some (n - 87)
      else None)"

definition hex4 :: "string \<Rightarrow> nat option" where
  "hex4 s =
     (case map hex_val (take 4 s) of
        [Some a, Some b, Some c, Some d] \<Rightarrow> Some (((a * 16 + b) * 16 + c) * 16 + d)
      | _ \<Rightarrow> None)"

definition escape_char :: "char \<Rightarrow> char option" where
  "escape_char e =
     (if e = CHR 0x22 \<or> e = CHR 0x5C \<or> e = CHR ''/'' then Some e
      else if e = CHR ''b'' then Some (CHR 0x08)
      else if e = CHR ''f'' then Some (CHR 0x0C)
      else if e = CHR ''n'' then Some (CHR 0x0A)
      else if e = CHR ''r'' then Some (CHR 0x0D)
      else if e = CHR ''t'' then Some (CHR 0x09)
      else None)"

text \<open>The characters of a string literal after its opening quote, and the text after it.\<close>

fun str_body :: "string \<Rightarrow> (string \<times> string) option" where
  "str_body [] = None"
| "str_body [c] = (if c = CHR 0x22 then Some ([], []) else None)"
| "str_body (c # e # r) =
     (if c = CHR 0x22 then Some ([], e # r)
      else if c = CHR 0x5C then
        (if e = CHR ''u'' then
           (case hex4 r of
              None \<Rightarrow> None
            | Some n \<Rightarrow>
                if n < 256
                then map_option (\<lambda>(t, rest). (char_of n # t, rest)) (str_body (drop 4 r))
                else None)
         else
           (case escape_char e of
              None \<Rightarrow> None
            | Some x \<Rightarrow> map_option (\<lambda>(t, rest). (x # t, rest)) (str_body r)))
      else if (of_char c :: nat) < 32 then None
      else map_option (\<lambda>(t, rest). (c # t, rest)) (str_body (e # r)))"

text \<open>A number literal: \<open>-\<close>? int frac? exp?, the integer part without a leading zero.\<close>

definition parse_number :: "string \<Rightarrow> (jsnum \<times> string) option" where
  "parse_number s =
     (let neg = startsWith s ''-'';
          s1 = (if neg then tl s else s);
          ds = takeWhile is_digit s1;
          s2 = dropWhile is_digit s1;
          has_frac = startsWith s2 ''.'';
          fs = (if has_frac then takeWhile is_digit (tl s2) else []);
          s3 = (if has_frac then dropWhile is_digit (tl s2) else s2);
          has_exp = (startsWith s3 ''e'' \<or> startsWith s3 ''E'');
          s4 = (if has_exp then tl s3 else s3);
          eneg = (has_exp \<and> startsWith s4 ''-'');
          s5 = (if has_exp \<and> (startsWith s4 ''-'' \<or> startsWith s4 ''+'') then tl s4 else s4);
          es = (if has_exp then takeWhile is_digit s5 else []);
          s6 = (if has_exp then dropWhile is_digit s5 else s3)
      in if ds = [] \<or> (1 < length ds \<and> hd ds = CHR ''0'') \<or> (has_frac \<and> fs = [])
            \<or> (has_exp \<and> es = [])
         then None
         else
           (let m = (of_nat (digits_val ds) + of_nat (digits_val fs) / 10 ^ length fs) :: rat;
                x = m * 10 powi (if eneg then - int (digits_val es) else int (digits_val es))
            in Some (fl (if neg then - x else x), s6)))"

fun parse_value :: "nat \<Rightarrow> string \<Rightarrow> (jsval \<times> string) option"
  and parse_elems :: "nat \<Rightarrow> string \<Rightarrow> (jsval list \<times> string) option"
  and parse_members :: "nat \<Rightarrow> string \<Rightarrow> ((string \<times> jsval) list \<times> string) option"
where
  "parse_value 0 s = None"
| "parse_value (Suc n) s =
     (let t = skip_ws s in
      if startsWith t ''{'' then
        (if startsWith (skip_ws (tl t)) ''}'' then Some (JObj [], tl (skip_ws (tl t)))
         else map_option
                (\<lambda>(kvs, r). (JObj (foldl (\<lambda>al (k, v). AList.update k v al) [] kvs), r))
                (parse_members n (tl t)))
      else if startsWith t ''['' then
        (if startsWith (skip_ws (tl t)) '']'' then Some (JArr [], tl (skip_ws (tl t)))
         else map_option (\<lambda>(vs, r). (JArr vs, r)) (parse_elems n (tl t)))
      else if startsWith t [CHR 0x22] then
        map_option (\<lambda>(x, r). (JStr x, r)) (str_body (tl t))
      else if startsWith t ''true'' then Some (JBool True, drop 4 t)
      else if startsWith t ''false'' then Some (JBool False, drop 5 t)
      else if startsWith t ''null'' then Some (JNull, drop 4 t)
      else map_option (\<lambda>(x, r). (JNum x, r)) (parse_number t))"
| "parse_elems 0 s = None"
| "parse_elems (Suc n) s =
     (case parse_value n s of
        None \<Rightarrow> None
      | Some (v, r) \<Rightarrow>
          (let t = skip_ws r in
           if startsWith t '','' then
             map_option (\<lambda>(vs, r'). (v # vs, r')) (parse_elems n (tl t))
           else if startsWith t '']'' then Some ([v], tl t)
           else None))"
| "parse_members 0 s = None"
| "parse_members (Suc n) s =
     (let t = skip_ws s in
      if startsWith t [CHR 0x22] then
        (case str_body (tl t) of
           None \<Rightarrow> None
         | Some (k, r) \<Rightarrow>
             (let t1 = skip_ws r in
              if startsWith t1 '':'' then
                (case parse_value n (tl t1) of
                   None \<Rightarrow> None
                 | Some (v, r2) \<Rightarrow>
                     (let t2 = skip_ws r2 in
                      if startsWith t2 '','' then
                        map_option (\<lambda>(kvs, r'). ((k, v) # kvs, r')) (parse_members n (tl t2))
                      else if startsWith t2 ''}'' then Some ([(k, v)], tl t2)
                      else None))
              else None))
      else None)"

definition syntax_error_text :: string where
  "syntax_error_text = ''Unexpected token in JSON''"

definition ref_JSON_parse :: "string \<Rightarrow> string + jsval" where
  "ref_JSON_parse s =
     (case parse_value (2 * length s + 2) s of
        None \<Rightarrow> Inl syntax_error_text
      | Some (v, r) \<Rightarrow> if skip_ws r = [] then Inr v else Inl syntax_error_text)"

text \<open>
  The reference engine prints a natural number by its decimal digits.  For any other
  finite number it has no printer and returns the empty string; the services convert a
  number to a string only for a log line, or where a form descriptor carries a usage
  record of its own that is not numeric, which no example below does.
\<close>

definition ref_Number_toString :: "jsnum \<Rightarrow> string" where
  "ref_Number_toString n =
     (case n of
        Fin x \<Rightarrow> if 0 \<le> x \<and> of_int \<lfloor>x\<rfloor> = x then show_nat (nat \<lfloor>x\<rfloor>) else []
      | PInf \<Rightarrow> ''Infinity''
      | NInf \<Rightarrow> ''-Infinity''
      | NaN \<Rightarrow> ''NaN'')"

definition ref_engine :: engine where
  "ref_engine = \<lparr>JSON_parse = ref_JSON_parse, Number_toString = ref_Number_toString\<rparr>"


text \<open>
  The reference URL class covers the locations \<open>scheme://host\<close> followed by nothing or
  by a path, for the schemes \<open>http\<close> and \<open>https\<close> in lower case and a host of labels of
  lower-case letters and digits, each label starting with a letter: the origin of
  such a location is \<open>scheme://host\<close>.  Against such an origin it resolves an absolute
  path of letters, digits, \<open>/\<close>, \<open>-\<close> and \<open>_\<close> by appending it, and it rejects the
  reference \<open>//\<close>, whose host is empty.  A reference that starts with the scheme
  \<open>javascript\<close> or \<open>data\<close>, its letters in either case, and a colon, followed by letters
  and digits, is a location by itself: the base plays no part, and the \<open>href\<close> is the
  scheme in lower case, the colon and the rest unchanged.  Every other input is outside
  what it covers and is rejected as well; the examples stay inside.
\<close>

definition is_lower_alnum :: "char \<Rightarrow> bool" where
  "is_lower_alnum c = (is_digit c \<or> ((97::nat) \<le> of_char c \<and> of_char c \<le> (122::nat)))"

fun labels_ok :: "bool \<Rightarrow> string \<Rightarrow> bool" where
  "labels_ok start [] = (\<not> start)"
| "labels_ok start (c # cs) =
     (if c = CHR ''.'' then \<not> start \<and> cs \<noteq> [] \<and> \<not> is_digit (hd cs) \<and> labels_ok True cs
      else is_lower_alnum c \<and> labels_ok False cs)"

definition host_ok :: "string \<Rightarrow> bool" where
  "host_ok h = (h \<noteq> [] \<and> \<not> is_digit (hd h) \<and> labels_ok True h)"

definition ref_URL_origin :: "string \<Rightarrow> string option" where
  "ref_URL_origin u =
     (let scheme = (if startsWith u ''http://'' then ''http://''
                    else if startsWith u ''https://'' then ''https://'' else []);
          rest = drop (length scheme) u;
          host = takeWhile (\<lambda>c. c \<noteq> CHR ''/'') rest
      in if scheme \<noteq> [] \<and> host_ok host then Some (scheme @ host) else None)"

definition is_path_char :: "char \<Rightarrow> bool" where
  "is_path_char c =
     (is_lower_alnum c \<or> ((65::nat) \<le> of_char c \<and> of_char c \<le> (90::nat))
      \<or> c = CHR ''/'' \<or> c = CHR ''-'' \<or> c = CHR ''_'')"

definition is_alnum :: "char \<Rightarrow> bool" where
  "is_alnum c = (is_lower_alnum c \<or> ((65::nat) \<le> of_char c \<and> of_char c \<le> (90::nat)))"

definition ref_URL_href :: "string \<Rightarrow> string \<Rightarrow> string option" where
  "ref_URL_href r base =
     (if ref_URL_origin base \<noteq> Some base then None
      else if startsWith r ''/'' \<and> \<not> startsWith r ''//'' \<and> list_all is_path_char r
      then Some (base @ r)
      else
        (let scheme = map lower_ascii (takeWhile (\<lambda>c. c \<noteq> CHR '':'') r);
             rest = drop (length scheme + 1) r
         in if (scheme = ''javascript'' \<or> scheme = ''data'') \<and> rest \<noteq> [] \<and> list_all is_alnum rest
            then Some (scheme @ '':'' @ rest) else None))"

definition ref_url :: url_platform where
  "ref_url = \<lparr>URL_origin = ref_URL_origin, URL_href = ref_URL_href\<rparr>"

section \<open>Notions of the specification\<close>

text \<open>
  A fence with the opening \<open>opn\<close> and the body \<open>c\<close> stands at position \<open>i\<close> of a reply:
  from there the reply reads the opening, the body, and a newline followed by three
  backticks.
\<close>

definition fence_at :: "string \<Rightarrow> string \<Rightarrow> nat \<Rightarrow> string \<Rightarrow> bool" where
  "fence_at opn t i c = startsWith (drop i t) (opn @ c @ fence_close)"

text \<open>
  The sources the regular expression captures in a document, in the order of their
  appearance: the values of \<open>match[1]\<close> over the iterations of the loop.
\<close>

function raw_srcs :: "string \<Rightarrow> string list" where
  "raw_srcs s = (case exec s of None \<Rightarrow> [] | Some (c, rest) \<Rightarrow> c # raw_srcs rest)"
  by pat_completeness auto
termination
  by (relation "measure length") (auto dest: exec_shorter)

declare raw_srcs.simps [simp del]

text \<open>A source the discovery excludes by its own text.\<close>

definition excluded :: "string \<Rightarrow> bool" where
  "excluded s = (startsWith s ''data:'' \<or> startsWith s ''javascript:'' \<or> s = ''about:blank'')"

text \<open>
  A reference has a scheme when it starts with a letter, followed by letters, digits,
  \<open>+\<close>, \<open>-\<close> or \<open>.\<close>, and then a colon (RFC 3986).
\<close>

definition is_alpha :: "char \<Rightarrow> bool" where
  "is_alpha c = (((65::nat) \<le> of_char c \<and> of_char c \<le> (90::nat))
                 \<or> ((97::nat) \<le> of_char c \<and> of_char c \<le> (122::nat)))"

definition is_scheme_char :: "char \<Rightarrow> bool" where
  "is_scheme_char c = (is_alpha c \<or> is_digit c \<or> c = CHR ''+'' \<or> c = CHR ''-'' \<or> c = CHR ''.'')"

definition has_scheme :: "string \<Rightarrow> bool" where
  "has_scheme s =
     (let p = takeWhile (\<lambda>c. c \<noteq> CHR '':'') s
      in p \<noteq> [] \<and> length p < length s \<and> is_alpha (hd p) \<and> list_all is_scheme_char p)"


text \<open>
  A form descriptor is an object, as the extraction prompt asks for one.  Its \<open>formId\<close>
  is an identifier: a string as the prompt asks, or another primitive value, or absent.
  None of the fields that prompt lists is \<open>valueGenerationPerformance\<close>, the key under
  which the analysis records the usage of the form's own call, so a descriptor has no
  property of that name.
\<close>

fun is_primitive :: "jsval \<Rightarrow> bool" where
  "is_primitive (JArr xs) = False"
| "is_primitive (JObj kvs) = False"
| "is_primitive v = True"

definition is_descriptor :: "jsval \<Rightarrow> bool" where
  "is_descriptor f =
     (case f of
        JObj kvs \<Rightarrow> map_of kvs ''valueGenerationPerformance'' = None
                    \<and> is_primitive (get_prop f ''formId'')
      | _ \<Rightarrow> False)"

text \<open>\<open>x || 0\<close> for a number \<open>x\<close>.\<close>

definition nz :: "jsnum \<Rightarrow> jsnum" where
  "nz x = (if x = Fin 0 \<or> x = NaN then Fin 0 else x)"

text \<open>One step of the sum: every field of a usage record is added to the total.\<close>

definition add_usage :: "jsnum usage \<Rightarrow> jsnum usage \<Rightarrow> jsnum usage" where
  "add_usage acc u =
     \<lparr>inputTokens = num_add (inputTokens acc) (nz (inputTokens u)),
      outputTokens = num_add (outputTokens acc) (nz (outputTokens u)),
      totalTokens = num_add (totalTokens acc) (nz (totalTokens u)),
      inputCost = num_add (inputCost acc) (nz (inputCost u)),
      outputCost = num_add (outputCost acc) (nz (outputCost u)),
      totalCost = num_add (totalCost acc) (nz (totalCost u))\<rparr>"

text \<open>
  What the form at one index contributes to the total: the usage of its call when its
  value generation succeeded, and nothing when it failed.
\<close>

definition generation_usage :: "engine \<Rightarrow> api_call \<Rightarrow> jsval \<Rightarrow> jsnum usage option" where
  "generation_usage E c form =
     (case generateFieldValues E c form of
        Inl e \<Rightarrow> None
      | Inr vals \<Rightarrow> (case callGeminiAPI c of Inl e \<Rightarrow> None | Inr r \<Rightarrow> Some (usage r)))"

text \<open>
  The total: the usage of the extraction call, then the contributions of the forms from
  left to right, and the three costs rounded to six decimals at the end.
\<close>

definition summed_usage :: "engine \<Rightarrow> analysis_env \<Rightarrow> jsnum usage \<Rightarrow> jsval list \<Rightarrow> jsnum usage" where
  "summed_usage E env u0 fs =
     (let t = foldl add_usage
                (\<lparr>inputTokens = nz (inputTokens u0), outputTokens = nz (outputTokens u0),
                  totalTokens = nz (totalTokens u0), inputCost = nz (inputCost u0),
                  outputCost = nz (outputCost u0), totalCost = nz (totalCost u0)\<rparr>)
                (List.map_filter (\<lambda>(i, form). generation_usage E (generation env i) form)
                   (enumerate 0 fs))
      in t\<lparr>inputCost := toFixed6 (inputCost t), outputCost := toFixed6 (outputCost t),
           totalCost := toFixed6 (totalCost t)\<rparr>)"

text \<open>A usage record of numbers as the accumulator of \<open>reduce\<close> holds it.\<close>

definition jv :: "jsnum usage \<Rightarrow> jsval usage" where
  "jv u = \<lparr>inputTokens = JNum (inputTokens u), outputTokens = JNum (outputTokens u),
           totalTokens = JNum (totalTokens u), inputCost = JNum (inputCost u),
           outputCost = JNum (outputCost u), totalCost = JNum (totalCost u)\<rparr>"

text \<open>Observations of a call and of a run, for the examples.\<close>

definition reported_inputTokens :: "api_call \<Rightarrow> jsnum option" where
  "reported_inputTokens c =
     (case callGeminiAPI c of Inl e \<Rightarrow> None | Inr r \<Rightarrow> Some (inputTokens (usage r)))"

definition total_inputTokens :: "engine \<Rightarrow> analysis_env \<Rightarrow> jsval option" where
  "total_inputTokens E env =
     (case analyzeFormsComplete E env of
        Inl e \<Rightarrow> None
      | Inr res \<Rightarrow> Some (get_prop (get_prop res ''totalUsage'') ''inputTokens''))"

definition average_time :: "engine \<Rightarrow> analysis_env \<Rightarrow> jsval option" where
  "average_time E env =
     (case analyzeFormsComplete E env of
        Inl e \<Rightarrow> None
      | Inr res \<Rightarrow> Some (get_prop (get_prop res ''performance'') ''averageTimePerForm''))"


section \<open>Examples\<close>

text \<open>Pages, networks and replies on which the services are run below.\<close>

definition example_page :: string where
  "example_page =
     ''<html><iframe src=\"http://a.example/one\"></iframe><iframe width=\"5\" src='/two'></iframe></html>''"

definition example_net :: network where
  "example_net k u =
     (if k = 0 then Response 200 ''OK'' example_page
      else if k = 1 then Response 200 ''OK'' ''<form id=\"f\"></form>''
      else Response 404 ''Not Found'' [])"

definition example_fetched :: fetched where
  "example_fetched =
     \<lparr>mainHtml = example_page,
      iframes = [\<lparr>src = ''http://a.example/one'', content = ''<form id=\"f\"></form>'',
                   success = True, error = None\<rparr>,
                 \<lparr>src = ''https://example.com/two'', content = [], success = False,
                   error = Some ''HTTP 404: Not Found''\<rparr>],
      combinedHtml = example_page
         @ ''\<newline>\<newline><!-- ========== IFRAME 1 CONTENT: http://a.example/one ========== -->\<newline>\<newline>''
         @ ''<form id=\"f\"></form>'',
      stats = Some \<lparr>totalIframes = 2, successfulIframes = 1, failedIframes = 1\<rparr>\<rparr>"

definition empty_frame_net :: network where
  "empty_frame_net k u =
     (if k = 0 then Response 200 ''OK'' ''<iframe src=\"http://a.example/one\"></iframe>''
      else Response 200 ''OK'' [])"

definition three_frames :: string where
  "three_frames =
     ''<iframe src=\"http://a/1\"><iframe src=\"data:x\"><iframe src=\"javascript:0\">''
     @ ''<iframe src=\"about:blank\"><iframe src=\"/two\"><iframe src=\"http://a/1\">''"

definition two_absolute_frames :: string where
  "two_absolute_frames = ''<iframe src=\"http://a/1\"><iframe src=\"http://a/1\">''"

definition example_call :: api_call where
  "example_call =
     \<lparr>outcome = ApiOk \<lparr>candidates = Some [Candidate (Some ''{}'')],
                       usageMetadata = Some \<lparr>promptTokenCount = Some (Fin 2000),
                                             candidatesTokenCount = Some (Fin 1000),
                                             totalTokenCount = Some (Fin 3000)\<rparr>\<rparr>,
      elapsed = 1200, stamp = ''2024-12-01T10:00:00.000Z''\<rparr>"

definition example_reply :: reply where
  "example_reply =
     \<lparr>replyText = ''{}'', timeTaken = Fin 1200, timestamp = ''2024-12-01T10:00:00.000Z'',
      usage = usage_of (Some \<lparr>promptTokenCount = Some (Fin 2000),
                               candidatesTokenCount = Some (Fin 1000),
                               totalTokenCount = Some (Fin 3000)\<rparr>)\<rparr>"

definition small_call :: api_call where
  "small_call =
     \<lparr>outcome = ApiOk \<lparr>candidates = Some [Candidate (Some ''{}'')],
                       usageMetadata = Some \<lparr>promptTokenCount = Some (Fin 2),
                                             candidatesTokenCount = Some (Fin 1),
                                             totalTokenCount = Some (Fin 3)\<rparr>\<rparr>,
      elapsed = 1200, stamp = ''2024-12-01T10:00:00.000Z''\<rparr>"

definition fenced_example :: string where
  "fenced_example = ''prefix '' @ ticks @ ''json\<newline>{\"a\":1}\<newline>'' @ ticks @ '' suffix''"

definition two_fences :: string where
  "two_fences = ticks @ ''\<newline>{\"a\":1}\<newline>'' @ ticks @ ''\<newline>'' @ ticks @ ''json\<newline>bad\<newline>'' @ ticks"

definition two_json_fences :: string where
  "two_json_fences =
     ticks @ ''json\<newline>{\"a\":1}\<newline>'' @ ticks @ ''\<newline>'' @ ticks @ ''json\<newline>{\"b\":2}\<newline>'' @ ticks"

definition two_fences_call :: api_call where
  "two_fences_call =
     \<lparr>outcome = ApiOk \<lparr>candidates = Some [Candidate (Some two_fences)], usageMetadata = None\<rparr>,
      elapsed = 900, stamp = ''2024-12-01T10:00:00.000Z''\<rparr>"

definition ok_call :: "string \<Rightarrow> int \<Rightarrow> int \<Rightarrow> api_call" where
  "ok_call t p c =
     \<lparr>outcome = ApiOk \<lparr>candidates = Some [Candidate (Some t)],
                       usageMetadata = Some \<lparr>promptTokenCount = Some (Fin (of_int p)),
                                             candidatesTokenCount = Some (Fin (of_int c)),
                                             totalTokenCount = Some (Fin (of_int (p + c)))\<rparr>\<rparr>,
      elapsed = 100, stamp = ''2024-12-01T10:00:00.000Z''\<rparr>"

definition three_forms_text :: string where
  "three_forms_text = ''{\"forms\":[{\"formId\":\"a\"},{\"formId\":\"b\"},{\"formId\":\"c\"}]}''"

definition values_text :: string where
  "values_text = ''{\"values\":{\"name\":\"Sarah\"},\"metadata\":{\"ok\":true}}''"

definition three_forms_env :: analysis_env where
  "three_forms_env =
     \<lparr>extraction = ok_call three_forms_text 100 50,
      generation = (\<lambda>i. if i = 1
                         then \<lparr>outcome = ApiRejects ''socket hang up'', elapsed = 30, stamp = []\<rparr>
                         else ok_call values_text 10 5),
      now = (\<lambda>k. 1000 + 250 * int k),
      isoTime = ''2024-12-01T10:00:01.500Z''\<rparr>"

definition one_form_text :: string where
  "one_form_text = ''{\"forms\":[{\"formId\":\"a\"}]}''"

definition unparsable_env :: analysis_env where
  "unparsable_env =
     \<lparr>extraction = ok_call one_form_text 100 50,
      generation = (\<lambda>i. ok_call ''not json at all'' 10 5),
      now = (\<lambda>k. 1000 + 250 * int k),
      isoTime = ''2024-12-01T10:00:01.500Z''\<rparr>"

definition no_forms_env :: analysis_env where
  "no_forms_env =
     \<lparr>extraction = ok_call ''{\"forms\":[]}'' 100 50,
      generation = (\<lambda>i. ok_call values_text 10 5),
      now = (\<lambda>k. 1000 + 250 * int k),
      isoTime = ''2024-12-01T10:00:01.500Z''\<rparr>"

definition unprintable_text :: string where
  "unprintable_text = ''{\"forms\":[{\"formId\":{\"toString\":1}},{\"formId\":\"b\"}]}''"

definition unprintable_env :: analysis_env where
  "unprintable_env =
     \<lparr>extraction = ok_call unprintable_text 100 50,
      generation = (\<lambda>i. ok_call values_text 10 5),
      now = (\<lambda>k. 1000 + 250 * int k),
      isoTime = ''2024-12-01T10:00:01.500Z''\<rparr>"

definition three_descriptors :: "jsval list" where
  "three_descriptors =
     [JObj [(''formId'', JStr ''a'')], JObj [(''formId'', JStr ''b'')], JObj [(''formId'', JStr ''c'')]]"

definition values_reply :: reply where
  "values_reply =
     \<lparr>replyText = values_text, timeTaken = Fin 100, timestamp = ''2024-12-01T10:00:00.000Z'',
      usage = usage_of (Some \<lparr>promptTokenCount = Some (Fin 10),
                               candidatesTokenCount = Some (Fin 5),
                               totalTokenCount = Some (Fin 15)\<rparr>)\<rparr>"

definition values_parsed :: jsval where
  "values_parsed = JObj [(''values'', JObj [(''name'', JStr ''Sarah'')]),
                          (''metadata'', JObj [(''ok'', JBool True)])]"

section \<open>Properties of the HTML fetcher\<close>

subsection \<open>Discovery\<close>

lemma scan_map_filter:
  "scan P b s = List.map_filter (resolve_src P b) (raw_srcs s)"
proof (induction s rule: raw_srcs.induct)
  case (1 s)
  show ?case
  proof (cases "exec s")
    case None
    then show ?thesis
      by (simp add: scan.simps [of P b s] raw_srcs.simps [of s] List.map_filter_simps)
  next
    case (Some m)
    obtain c rest where m: "m = (c, rest)" by (cases m)
    from 1 [OF Some [unfolded m]] m have ih: "scan P b rest = List.map_filter (resolve_src P b) (raw_srcs rest)"
      by simp
    show ?thesis
      using Some m ih
      by (cases "resolve_src P b c")
        (simp_all add: scan.simps [of P b s] raw_srcs.simps [of s] List.map_filter_simps)
  qed
qed

lemma map_filter_excluded:
  "List.map_filter (resolve_src P b) xs =
   List.map_filter
     (\<lambda>s. if startsWith s ''http://'' \<or> startsWith s ''https://'' then Some s
          else (case URL_origin P b of None \<Rightarrow> None | Some origin \<Rightarrow> URL_href P s origin))
     (filter (\<lambda>s. \<not> excluded s) xs)"
  by (induction xs) (auto simp: List.map_filter_simps resolve_src_def excluded_def split: option.splits)

lemma startsWith_decomp: "startsWith s q \<Longrightarrow> s = q @ drop (length q) s"
  unfolding startsWith_def by (metis append_take_drop_id)

lemma scheme_prefix:
  assumes "startsWith s (p @ CHR '':'' # q)" and "CHR '':'' \<notin> set p"
    and "p \<noteq> []" and "is_alpha (hd p)" and "list_all is_scheme_char p"
  shows "has_scheme s"
proof -
  from startsWith_decomp [OF assms(1)] obtain r where s: "s = p @ CHR '':'' # r" by simp
  have "takeWhile (\<lambda>c. c \<noteq> CHR '':'') s = p"
    unfolding s using assms(2) by (auto simp: takeWhile_tail takeWhile_eq_all_conv)
  then show ?thesis
    using assms(3-5) by (simp add: has_scheme_def Let_def s)
qed

lemma startsWith_hd: "startsWith s (a # p) \<Longrightarrow> s \<noteq> [] \<and> hd s = a"
  by (cases s) (auto simp: startsWith_def)

lemma absolute_not_excluded:
  assumes "startsWith s ''http://'' \<or> startsWith s ''https://''"
  shows "\<not> excluded s"
proof -
  from assms have h: "hd s = CHR ''h''" by (auto dest: startsWith_hd)
  have "\<not> startsWith s ''data:''" "\<not> startsWith s ''javascript:''" "s \<noteq> ''about:blank''"
    using h by (auto dest: startsWith_hd)
  then show ?thesis by (simp add: excluded_def)
qed

lemma no_scheme_not_special:
  assumes "\<not> has_scheme s"
  shows "\<not> excluded s" and "\<not> startsWith s ''http://''" and "\<not> startsWith s ''https://''"
proof -
  have a: "\<not> startsWith s ''data:''"
    using scheme_prefix [of s "''data''" "[]"] assms
    by (auto simp: is_alpha_def is_scheme_char_def)
  have b: "\<not> startsWith s ''javascript:''"
    using scheme_prefix [of s "''javascript''" "[]"] assms
    by (auto simp: is_alpha_def is_scheme_char_def)
  have c: "s \<noteq> ''about:blank''"
    using assms by (auto simp: has_scheme_def is_alpha_def is_scheme_char_def)
  from a b c show "\<not> excluded s" by (simp add: excluded_def)
  show "\<not> startsWith s ''http://''"
    using scheme_prefix [of s "''http''" "''//''"] assms
    by (auto simp: is_alpha_def is_scheme_char_def)
  show "\<not> startsWith s ''https://''"
    using scheme_prefix [of s "''https''" "''//''"] assms
    by (auto simp: is_alpha_def is_scheme_char_def)
qed

text \<open>
  Claim C6.  A discovered source that lacks a scheme is resolved against the origin of
  the base location, not against its full path: the loop handles the captured sources
  one by one in document order, and for a source without a scheme the value pushed is
  \<open>new URL(src, new URL(baseUrl).origin).href\<close>.  In particular, where the platform
  gives \<open>https://example.com\<close> as the origin of \<open>https://example.com/a/b\<close> and
  resolves \<open>/x\<close> against it to \<open>https://example.com/x\<close>, that is the one source
  discovered in a page whose only frame has the source \<open>/x\<close>.
\<close>

theorem relative_source_resolution:
  "extractIframeSrcs P html baseUrl = List.map_filter (resolve_src P baseUrl) (raw_srcs html)
   \<and> (\<forall>s. \<not> has_scheme s \<longrightarrow>
          resolve_src P baseUrl s =
            (case URL_origin P baseUrl of
               None \<Rightarrow> None
             | Some origin \<Rightarrow> URL_href P s origin))
   \<and> (URL_origin P ''https://example.com/a/b'' = Some ''https://example.com''
        \<and> URL_href P ''/x'' ''https://example.com'' = Some ''https://example.com/x''
      \<longrightarrow> extractIframeSrcs P ''<iframe src=\"/x\"></iframe>'' ''https://example.com/a/b''
            = [''https://example.com/x''])"
proof (intro conjI allI impI)
  show "extractIframeSrcs P html baseUrl = List.map_filter (resolve_src P baseUrl) (raw_srcs html)"
    by (simp add: extractIframeSrcs_def scan_map_filter)
next
  fix s assume "\<not> has_scheme s"
  from no_scheme_not_special [OF this]
  show "resolve_src P baseUrl s =
          (case URL_origin P baseUrl of None \<Rightarrow> None | Some origin \<Rightarrow> URL_href P s origin)"
    by (simp add: resolve_src_def excluded_def)
next
  assume a: "URL_origin P ''https://example.com/a/b'' = Some ''https://example.com''
        \<and> URL_href P ''/x'' ''https://example.com'' = Some ''https://example.com/x''"
  have r: "raw_srcs ''<iframe src=\"/x\"></iframe>'' = [''/x'']"
    by code_simp
  have "resolve_src P ''https://example.com/a/b'' ''/x'' = Some ''https://example.com/x''"
    using a by (simp add: resolve_src_def startsWith_def)
  then show "extractIframeSrcs P ''<iframe src=\"/x\"></iframe>'' ''https://example.com/a/b''
            = [''https://example.com/x'']"
    by (simp add: extractIframeSrcs_def scan_map_filter r List.map_filter_simps)
qed

theorem relative_source_resolution_witness:
  "\<not> has_scheme ''/x''
   \<and> URL_origin ref_url ''https://example.com/a/b'' = Some ''https://example.com''
   \<and> URL_href ref_url ''/x'' ''https://example.com'' = Some ''https://example.com/x''
   \<and> resolve_src ref_url ''https://example.com/a/b'' ''/x'' = Some ''https://example.com/x''
   \<and> extractIframeSrcs ref_url ''<iframe src=\"/x\"></iframe>'' ''https://example.com/a/b''
       = [''https://example.com/x'']"
proof -
  have h: "\<not> has_scheme ''/x''" by code_simp
  have o: "URL_origin ref_url ''https://example.com/a/b'' = Some ''https://example.com''"
    by code_simp
  have x: "URL_href ref_url ''/x'' ''https://example.com'' = Some ''https://example.com/x''"
    by code_simp
  note t = relative_source_resolution [of ref_url "[]" "''https://example.com/a/b''"]
  from t h have "resolve_src ref_url ''https://example.com/a/b'' ''/x'' =
       (case URL_origin ref_url ''https://example.com/a/b'' of
          None \<Rightarrow> None
        | Some origin \<Rightarrow> URL_href ref_url ''/x'' origin)"
    by blast
  then have 1: "resolve_src ref_url ''https://example.com/a/b'' ''/x'' = Some ''https://example.com/x''"
    by (simp only: o x option.case)
  from t o x
  have 2: "extractIframeSrcs ref_url ''<iframe src=\"/x\"></iframe>'' ''https://example.com/a/b''
       = [''https://example.com/x'']"
    by blast
  from h o x 1 2 show ?thesis by (simp only: simp_thms)
qed

text \<open>
  What the discovery returns, in general.  The sources that start with \<open>data:\<close> or
  \<open>javascript:\<close>, in lower case, or are \<open>about:blank\<close> are excluded.  Each remaining source, in the
  order of appearance and once per occurrence, is kept as it is when it starts with
  \<open>http://\<close> or \<open>https://\<close>; otherwise it is replaced by its resolution against the
  origin of the base, and dropped when the base or the source does not resolve.  When
  every source of the page starts with \<open>http://\<close> or \<open>https://\<close>, the output is the
  list of the sources, duplicates included.
\<close>

lemma discovery_filter_order:
  "extractIframeSrcs P html baseUrl =
     List.map_filter
       (\<lambda>s. if startsWith s ''http://'' \<or> startsWith s ''https://'' then Some s
            else (case URL_origin P baseUrl of
                    None \<Rightarrow> None
                  | Some origin \<Rightarrow> URL_href P s origin))
       (filter (\<lambda>s. \<not> excluded s) (raw_srcs html))
   \<and> ((\<forall>s \<in> set (raw_srcs html). startsWith s ''http://'' \<or> startsWith s ''https://'')
      \<longrightarrow> extractIframeSrcs P html baseUrl = raw_srcs html)"
proof
  show eq: "extractIframeSrcs P html baseUrl =
     List.map_filter
       (\<lambda>s. if startsWith s ''http://'' \<or> startsWith s ''https://'' then Some s
            else (case URL_origin P baseUrl of
                    None \<Rightarrow> None
                  | Some origin \<Rightarrow> URL_href P s origin))
       (filter (\<lambda>s. \<not> excluded s) (raw_srcs html))"
    by (simp only: extractIframeSrcs_def scan_map_filter map_filter_excluded)
  have "(\<forall>s \<in> set xs. startsWith s ''http://'' \<or> startsWith s ''https://'')
        \<Longrightarrow> List.map_filter (resolve_src P baseUrl) xs = xs" for xs
  proof (induction xs)
    case Nil
    show ?case by (simp add: List.map_filter_simps)
  next
    case (Cons a xs)
    from Cons.prems have a: "startsWith a ''http://'' \<or> startsWith a ''https://''" by simp
    from absolute_not_excluded [OF a] a have "resolve_src P baseUrl a = Some a"
      by (auto simp: resolve_src_def excluded_def)
    with Cons show ?case by (simp add: List.map_filter_simps)
  qed
  then show "(\<forall>s \<in> set (raw_srcs html). startsWith s ''http://'' \<or> startsWith s ''https://'')
      \<longrightarrow> extractIframeSrcs P html baseUrl = raw_srcs html"
    by (simp add: extractIframeSrcs_def scan_map_filter)
qed

lemma discovery_filter_order_example:
  "raw_srcs three_frames =
     [''http://a/1'', ''data:x'', ''javascript:0'', ''about:blank'',
      ''/two'', ''http://a/1'']
   \<and> extractIframeSrcs ref_url three_frames ''https://example.com/a/b'' =
     [''http://a/1'', ''https://example.com/two'', ''http://a/1'']
   \<and> raw_srcs two_absolute_frames = [''http://a/1'', ''http://a/1'']
   \<and> extractIframeSrcs ref_url two_absolute_frames ''https://example.com/a/b'' =
     [''http://a/1'', ''http://a/1'']"
proof -
  have r: "raw_srcs three_frames =
     [''http://a/1'', ''data:x'', ''javascript:0'', ''about:blank'',
      ''/two'', ''http://a/1'']"
    by code_simp
  have e: "extractIframeSrcs ref_url three_frames ''https://example.com/a/b'' =
     [''http://a/1'', ''https://example.com/two'', ''http://a/1'']"
    by code_simp
  have r1: "raw_srcs two_absolute_frames = [''http://a/1'', ''http://a/1'']"
    by code_simp
  have h: "\<forall>s \<in> set (raw_srcs two_absolute_frames).
             startsWith s ''http://'' \<or> startsWith s ''https://''"
    unfolding r1 by (simp add: startsWith_def)
  from discovery_filter_order [of ref_url two_absolute_frames "''https://example.com/a/b''"] h
  have "extractIframeSrcs ref_url two_absolute_frames ''https://example.com/a/b''
        = raw_srcs two_absolute_frames"
    by blast
  with r e r1 show ?thesis by (simp only: simp_thms)
qed

text \<open>
  A source that is not excluded and does not resolve is dropped: the source \<open>//\<close> is
  not excluded, and it is not in the output, because its host is empty.
\<close>

lemma unresolved_source_dropped:
  "raw_srcs ''<iframe src=\"//\"></iframe>'' = [''//'']
   \<and> \<not> excluded ''//''
   \<and> extractIframeSrcs ref_url ''<iframe src=\"//\"></iframe>'' ''https://example.com/a/b'' = []"
  by code_simp

text \<open>
  Claim C7 at a page whose two frames have the sources \<open>JavaScript:0\<close> and \<open>DATA:x\<close>.
  The test for the schemes to skip compares with the lower-case literals \<open>data:\<close> and
  \<open>javascript:\<close>, so neither source is excluded: whatever the platform, each is handed
  to the URL class for resolution, and the output lists the locations \<open>javascript:0\<close>
  and \<open>data:x\<close>, a script pseudo-protocol source and a data payload, which the claim
  excludes.
\<close>

theorem uppercase_scheme_not_excluded:
  "extractIframeSrcs ref_url
     ''<iframe src=\"JavaScript:0\"></iframe><iframe src=\"DATA:x\"></iframe>''
     ''https://example.com/''
     = [''javascript:0'', ''data:x'']
   \<and> (\<forall>P b. resolve_src P b ''JavaScript:0'' =
               (case URL_origin P b of
                  None \<Rightarrow> None
                | Some origin \<Rightarrow> URL_href P ''JavaScript:0'' origin))
   \<and> (\<forall>P b. resolve_src P b ''DATA:x'' =
               (case URL_origin P b of
                  None \<Rightarrow> None
                | Some origin \<Rightarrow> URL_href P ''DATA:x'' origin))"
proof -
  have 1: "extractIframeSrcs ref_url
     ''<iframe src=\"JavaScript:0\"></iframe><iframe src=\"DATA:x\"></iframe>''
     ''https://example.com/''
     = [''javascript:0'', ''data:x'']"
    by code_simp
  have 2: "resolve_src P b ''JavaScript:0'' =
               (case URL_origin P b of
                  None \<Rightarrow> None
                | Some origin \<Rightarrow> URL_href P ''JavaScript:0'' origin)" for P b
    by (simp add: resolve_src_def startsWith_def)
  have 3: "resolve_src P b ''DATA:x'' =
               (case URL_origin P b of
                  None \<Rightarrow> None
                | Some origin \<Rightarrow> URL_href P ''DATA:x'' origin)" for P b
    by (simp add: resolve_src_def startsWith_def)
  from 1 2 3 show ?thesis by blast
qed


subsection \<open>Fetching and combining\<close>

lemma combine_from_concat:
  "combine_from i acc fs =
   acc @ concat (map (\<lambda>(i, f). if success f \<and> content f \<noteq> [] then marker i (src f) @ content f else [])
                     (enumerate i fs))"
  by (induction fs arbitrary: i acc) simp_all

lemma fetch_iframe_simps:
  "src (fetch_iframe net i s) = s"
  "\<not> success (fetch_iframe net i s) \<Longrightarrow> content (fetch_iframe net i s) = []"
  by (auto simp: fetch_iframe_def split: sum.splits)

lemma map_src_fetch:
  "map src (map (\<lambda>(index, s). fetch_iframe net index s) (enumerate n xs)) = xs"
  by (induction xs arbitrary: n) (simp_all add: fetch_iframe_simps)

lemma failed_content:
  "f \<in> set (map (\<lambda>(index, s). fetch_iframe net index s) (enumerate n xs)) \<Longrightarrow> \<not> success f \<Longrightarrow> content f = []"
  by (auto simp: fetch_iframe_simps)

lemma count_split:
  "int (length xs) - int (length (filter p xs)) = int (length (filter (\<lambda>x. \<not> p x) xs))"
  using sum_length_filter_compl [of p xs] by simp

lemma fetchWithIframes_cases:
  assumes "fetchWithIframes P net url = Inr r"
  obtains (none) "fetchUrl net 0 url = Inr (mainHtml r)" "extractIframeSrcs P (mainHtml r) url = []"
      "iframes r = []" "combinedHtml r = mainHtml r" "stats r = None"
    | (some) "fetchUrl net 0 url = Inr (mainHtml r)" "extractIframeSrcs P (mainHtml r) url \<noteq> []"
      "iframes r = map (\<lambda>(index, s). fetch_iframe net index s)
                       (enumerate 0 (extractIframeSrcs P (mainHtml r) url))"
      "combinedHtml r = combineHtml (mainHtml r) (iframes r)"
      "stats r = Some \<lparr>totalIframes = int (length (iframes r)),
                       successfulIframes = int (length (filter success (iframes r))),
                       failedIframes = int (length (iframes r)) - int (length (filter success (iframes r)))\<rparr>"
  using assms
  by (auto simp: fetchWithIframes_def Let_def split: sum.splits if_splits)

lemma example_run:
  "fetchWithIframes ref_url example_net ''https://example.com/a/b'' = Inr example_fetched"
  by code_simp

text \<open>
  Claim C8.  Whenever the result carries a \<open>stats\<close> record, its successful and failed
  counts add up to its total; the total is the number of frames fetched, and the two
  counts are the numbers of frames fetched with and without success.
\<close>

theorem stats_consistent:
  assumes "fetchWithIframes P net url = Inr r" and "stats r = Some st"
  shows "successfulIframes st + failedIframes st = totalIframes st
       \<and> totalIframes st = int (length (iframes r))
       \<and> successfulIframes st = int (length (filter success (iframes r)))
       \<and> failedIframes st = int (length (filter (\<lambda>f. \<not> success f) (iframes r)))"
  using assms(1)
proof (cases rule: fetchWithIframes_cases)
  case none
  with assms(2) show ?thesis by simp
next
  case some
  have "int (length (filter success (iframes r)))
        + int (length (filter (\<lambda>f. \<not> success f) (iframes r))) = int (length (iframes r))"
    using sum_length_filter_compl [of success "iframes r"] by linarith
  with assms(2) some(5) show ?thesis by (auto simp: count_split)
qed

theorem stats_consistent_witness:
  "fetchWithIframes ref_url example_net ''https://example.com/a/b'' = Inr example_fetched
   \<and> stats example_fetched = Some \<lparr>totalIframes = 2, successfulIframes = 1, failedIframes = 1\<rparr>
   \<and> (1::int) + 1 = 2
   \<and> length (iframes example_fetched) = 2
   \<and> length (filter success (iframes example_fetched)) = 1"
proof -
  have s: "stats example_fetched = Some \<lparr>totalIframes = 2, successfulIframes = 1, failedIframes = 1\<rparr>"
    by (simp add: example_fetched_def)
  from stats_consistent [OF example_run s] example_run s show ?thesis by simp
qed

text \<open>
  Claim C5, as the code has it.  In every successful result the combined text is the
  main document followed, for each frame in discovery order that was fetched with
  success and whose body is not empty, by the marker comment naming its index (from 1)
  and its source and then by its body.  A frame whose fetch failed has no body, so it
  adds nothing; when frames were discovered the result carries \<open>stats\<close>, which count
  the failed ones.
\<close>

theorem combined_assembly:
  assumes "fetchWithIframes P net url = Inr r"
  shows "combinedHtml r =
           mainHtml r @
           concat (map (\<lambda>(i, f).
                          if success f \<and> content f \<noteq> []
                          then ''\<newline>\<newline><!-- ========== IFRAME '' @ show_nat (i + 1) @ '' CONTENT: '' @ src f
                                 @ '' ========== -->\<newline>\<newline>'' @ content f
                          else [])
                       (enumerate 0 (iframes r)))
       \<and> map src (iframes r) = extractIframeSrcs P (mainHtml r) url
       \<and> (\<forall>f \<in> set (iframes r). \<not> success f \<longrightarrow> content f = [])
       \<and> (iframes r \<noteq> [] \<longrightarrow>
            (\<exists>st. stats r = Some st
                 \<and> failedIframes st = int (length (filter (\<lambda>f. \<not> success f) (iframes r)))))"
  using assms
proof (cases rule: fetchWithIframes_cases)
  case none
  then show ?thesis by simp
next
  case some
  have a: "combinedHtml r =
           mainHtml r @
           concat (map (\<lambda>(i, f).
                          if success f \<and> content f \<noteq> []
                          then ''\<newline>\<newline><!-- ========== IFRAME '' @ show_nat (i + 1) @ '' CONTENT: '' @ src f
                                 @ '' ========== -->\<newline>\<newline>'' @ content f
                          else [])
                       (enumerate 0 (iframes r)))"
    unfolding some(4) combineHtml_def combine_from_concat marker_def by (simp cong: if_cong)
  have b: "map src (iframes r) = extractIframeSrcs P (mainHtml r) url"
    unfolding some(3) by (rule map_src_fetch)
  have c: "\<forall>f \<in> set (iframes r). \<not> success f \<longrightarrow> content f = []"
    unfolding some(3) using failed_content by blast
  have d: "\<exists>st. stats r = Some st
                 \<and> failedIframes st = int (length (filter (\<lambda>f. \<not> success f) (iframes r)))"
    unfolding some(5) by (simp add: count_split)
  from a b c d show ?thesis by blast
qed

theorem combined_assembly_witness:
  "fetchWithIframes ref_url example_net ''https://example.com/a/b'' = Inr example_fetched
   \<and> map src (iframes example_fetched)
       = extractIframeSrcs ref_url (mainHtml example_fetched) ''https://example.com/a/b''
   \<and> map src (iframes example_fetched) = [''http://a.example/one'', ''https://example.com/two'']
   \<and> map success (iframes example_fetched) = [True, False]
   \<and> combinedHtml example_fetched =
         mainHtml example_fetched
         @ ''\<newline>\<newline><!-- ========== IFRAME 1 CONTENT: http://a.example/one ========== -->\<newline>\<newline>''
         @ ''<form id=\"f\"></form>''"
proof -
  from combined_assembly [OF example_run]
  have "map src (iframes example_fetched)
       = extractIframeSrcs ref_url (mainHtml example_fetched) ''https://example.com/a/b''"
    by blast
  with example_run show ?thesis by (simp add: example_fetched_def)
qed

text \<open>
  The claim as stated fails for a frame that is fetched with success and has an empty
  body: the code adds no marker for it, so the combined text is the main document
  alone although one frame was fetched.
\<close>

theorem combined_empty_body_counterexample:
  "fetchWithIframes ref_url empty_frame_net ''https://example.com/'' =
     Inr \<lparr>mainHtml = ''<iframe src=\"http://a.example/one\"></iframe>'',
          iframes = [\<lparr>src = ''http://a.example/one'', content = [], success = True, error = None\<rparr>],
          combinedHtml = ''<iframe src=\"http://a.example/one\"></iframe>'',
          stats = Some \<lparr>totalIframes = 1, successfulIframes = 1, failedIframes = 0\<rparr>\<rparr>"
  by code_simp

text \<open>
  Claim C2 at a page without frames: the result equals the main document, and it has
  no \<open>stats\<close> record at all, where the claim gives one with three zeros.
\<close>

theorem zero_iframes_no_stats:
  "fetchWithIframes ref_url (\<lambda>k u. Response 200 ''OK'' ''<html></html>'') ''https://example.com/'' =
     Inr \<lparr>mainHtml = ''<html></html>'', iframes = [], combinedHtml = ''<html></html>'',
          stats = None\<rparr>"
  by code_simp


section \<open>Properties of the Gemini service\<close>

subsection \<open>Rounding to binary64\<close>

lemma bits_bounds: "0 < n \<Longrightarrow> 2 ^ (bits n - 1) \<le> n \<and> n < 2 ^ bits n"
proof (induction n rule: bits.induct)
  case (1 n)
  show ?case
  proof (cases "n div 2 = 0")
    case True
    with 1(2) have "n = 1" by presburger
    then show ?thesis by (simp add: bits.simps [of "Suc 0"] bits.simps [of 0])
  next
    case False
    then have m: "0 < n div 2" by simp
    from 1(1) [OF _ m] 1(2) have ih: "2 ^ (bits (n div 2) - 1) \<le> n div 2" "n div 2 < 2 ^ bits (n div 2)"
      by simp_all
    have b: "bits n = Suc (bits (n div 2))" using 1(2) by (simp add: bits.simps [of n])
    have p: "0 < bits (n div 2)" using m by (simp add: bits.simps [of "n div 2"])
    then have "(2::nat) ^ bits (n div 2) = 2 * 2 ^ (bits (n div 2) - 1)"
      by (cases "bits (n div 2)") simp_all
    with ih have "2 ^ bits (n div 2) \<le> n" by linarith
    moreover from ih have "n < 2 * 2 ^ bits (n div 2)" by linarith
    ultimately show ?thesis by (simp add: b)
  qed
qed

lemma ilog2_le:
  assumes "0 < a"
  shows "2 powi (ilog2 a) \<le> a"
proof -
  obtain p q where pq: "quotient_of a = (p, q)" by (cases "quotient_of a")
  have q: "0 < q" using pq by (rule quotient_of_denom_pos)
  have a: "a = of_int p / of_int q" using pq by (rule quotient_of_div)
  have p: "0 < p" using assms q a by (simp add: zero_less_divide_iff)
  define d where "d = int (bits (nat p)) - int (bits (nat q))"
  have il: "ilog2 a = (if 2 powi d \<le> a then d else d - 1)"
    by (simp add: ilog2_def pq d_def Let_def)
  show ?thesis
  proof (cases "2 powi d \<le> a")
    case True
    with il show ?thesis by simp
  next
    case False
    from bits_bounds [of "nat p"] p have bp: "2 ^ (bits (nat p) - 1) \<le> nat p" and bp0: "0 < bits (nat p)"
      by (simp_all add: bits.simps [of "nat p"])
    from bits_bounds [of "nat q"] q have bq: "nat q < 2 ^ bits (nat q)" by simp
    have 1: "(2::rat) ^ (bits (nat p) - 1) \<le> of_int p"
    proof -
      from bp have "(of_nat (2 ^ (bits (nat p) - 1)) :: rat) \<le> of_nat (nat p)"
        by (simp only: of_nat_le_iff)
      then show ?thesis using p by simp
    qed
    have 2: "of_int q \<le> (2::rat) ^ bits (nat q)"
    proof -
      from bq have "(of_nat (nat q) :: rat) \<le> of_nat (2 ^ bits (nat q))"
        by (simp only: of_nat_le_iff less_imp_le)
      then show ?thesis using q by simp
    qed
    have dd: "d - 1 = int (bits (nat p) - 1) - int (bits (nat q))"
      using bp0 by (simp add: d_def)
    have "2 powi (d - 1) = (2::rat) ^ (bits (nat p) - 1) / 2 ^ bits (nat q)"
      unfolding dd by (simp add: power_int_diff)
    also have "\<dots> \<le> of_int p / of_int q"
      using 1 2 q p by (intro frac_le) simp_all
    finally show ?thesis using il False a by simp
  qed
qed

lemma round_even_ge: "1 \<le> x \<Longrightarrow> 1 \<le> round_even x"
proof -
  assume "1 \<le> x"
  then have "1 \<le> \<lfloor>x\<rfloor>" by simp
  then show ?thesis by (auto simp: round_even_def Let_def)
qed

lemma fl_pos:
  assumes "1 \<le> q"
  shows "fl q = PInf \<or> (\<exists>r. 0 < r \<and> fl q = Fin r)"
proof -
  have q0: "0 < q" "q \<noteq> 0" "\<bar>q\<bar> = q" using assms by simp_all
  define e where "e = max (ilog2 q) (- 1022)"
  define n where "n = round_even (q / 2 powi (e - 52))"
  have u: "2 powi (e - 52) \<le> q"
  proof (cases "- 1022 \<le> ilog2 q")
    case True
    then have "e = ilog2 q" by (simp add: e_def)
    have "(2::rat) powi (e - 52) \<le> 2 powi e"
      by (rule power_int_increasing) simp_all
    also have "\<dots> \<le> q" unfolding \<open>e = ilog2 q\<close> using q0(1) by (rule ilog2_le)
    finally show ?thesis .
  next
    case False
    then have "e = - 1022" by (simp add: e_def)
    have "(2::rat) powi (e - 52) \<le> 2 powi 0"
      by (rule power_int_increasing) (simp_all add: \<open>e = - 1022\<close>)
    with assms show ?thesis by simp
  qed
  have up: "(0::rat) < 2 powi (e - 52)" by (simp add: zero_less_power_int)
  from u up have "1 \<le> q / 2 powi (e - 52)" by (simp add: le_divide_eq)
  then have n1: "1 \<le> n" unfolding n_def by (rule round_even_ge)
  have "(0::rat) < of_int n" using n1 by simp
  then have r: "(0::rat) < of_int n * 2 powi (e - 52)" using up by (rule mult_pos_pos)
  have "fl q = (if 1023 < e \<or> (e = 1023 \<and> n = 9007199254740992) then PInf
                else Fin (of_int n * 2 powi (e - 52)))"
    unfolding fl_def Let_def e_def n_def q0(3) using q0(1,2) by (simp only: if_False if_True mult_1)
  with r show ?thesis by auto
qed

lemma fl_neg: "fl (- q) = (case fl q of Fin r \<Rightarrow> Fin (- r) | PInf \<Rightarrow> NInf | NInf \<Rightarrow> PInf | NaN \<Rightarrow> NaN)"
  by (cases "q = 0"; cases "0 < q") (auto simp: fl_def Let_def)

lemma fl_int_sign:
  fixes d :: int
  shows "fl (of_int d) =
           (if d = 0 then Fin 0 else fl (of_int d))
         \<and> (0 < d \<longrightarrow> fl (of_int d) = PInf \<or> (\<exists>r. 0 < r \<and> fl (of_int d) = Fin r))
         \<and> (d < 0 \<longrightarrow> fl (of_int d) = NInf \<or> (\<exists>r. r < 0 \<and> fl (of_int d) = Fin r))"
proof (intro conjI impI)
  show "fl (of_int d) = (if d = 0 then Fin 0 else fl (of_int d))" by (simp add: fl_def)
next
  assume "0 < d"
  then have "(1::rat) \<le> of_int d" by simp
  from fl_pos [OF this] show "fl (of_int d) = PInf \<or> (\<exists>r. 0 < r \<and> fl (of_int d) = Fin r)" .
next
  assume "d < 0"
  then have "(1::rat) \<le> of_int (- d)" by simp
  from fl_pos [OF this] have "fl (of_int (- d)) = PInf \<or> (\<exists>r. 0 < r \<and> fl (of_int (- d)) = Fin r)" .
  moreover have "fl (of_int d) = (case fl (of_int (- d)) of Fin r \<Rightarrow> Fin (- r) | PInf \<Rightarrow> NInf | NInf \<Rightarrow> PInf | NaN \<Rightarrow> NaN)"
    using fl_neg [of "of_int (- d)"] by simp
  ultimately show "fl (of_int d) = NInf \<or> (\<exists>r. r < 0 \<and> fl (of_int d) = Fin r)"
    by auto
qed


lemma ilog2_less:
  assumes "0 < a"
  shows "a < 2 powi (ilog2 a + 1)"
proof -
  obtain p q where pq: "quotient_of a = (p, q)" by (cases "quotient_of a")
  have q: "0 < q" using pq by (rule quotient_of_denom_pos)
  have a: "a = of_int p / of_int q" using pq by (rule quotient_of_div)
  have p: "0 < p" using assms q a by (simp add: zero_less_divide_iff)
  define d where "d = int (bits (nat p)) - int (bits (nat q))"
  have il: "ilog2 a = (if 2 powi d \<le> a then d else d - 1)"
    by (simp add: ilog2_def pq d_def Let_def)
  show ?thesis
  proof (cases "2 powi d \<le> a")
    case False
    with il show ?thesis by simp
  next
    case True
    from bits_bounds [of "nat p"] p have bp: "nat p < 2 ^ bits (nat p)" by simp
    from bits_bounds [of "nat q"] q have bq: "2 ^ (bits (nat q) - 1) \<le> nat q" and bq0: "0 < bits (nat q)"
      by (simp_all add: bits.simps [of "nat q"])
    have 1: "of_int p < (2::rat) ^ bits (nat p)"
    proof -
      from bp have "(of_nat (nat p) :: rat) < of_nat (2 ^ bits (nat p))"
        by (simp only: of_nat_less_iff)
      then show ?thesis using p by simp
    qed
    have 2: "(2::rat) ^ (bits (nat q) - 1) \<le> of_int q"
    proof -
      from bq have "(of_nat (2 ^ (bits (nat q) - 1)) :: rat) \<le> of_nat (nat q)"
        by (simp only: of_nat_le_iff)
      then show ?thesis using q by simp
    qed
    have dd: "d + 1 = int (bits (nat p)) - int (bits (nat q) - 1)"
      using bq0 by (simp add: d_def)
    have "of_int p / of_int q < (2::rat) ^ bits (nat p) / 2 ^ (bits (nat q) - 1)"
      using 1 2 q p by (intro frac_less) simp_all
    also have "\<dots> = 2 powi (d + 1)"
      unfolding dd by (simp add: power_int_diff)
    finally show ?thesis using il True a by simp
  qed
qed

lemma ilog2_eq:
  assumes "2 powi e \<le> a" and "a < 2 powi (e + 1)"
  shows "ilog2 a = e"
proof -
  have "(0::rat) < 2 powi e" by (simp add: zero_less_power_int)
  with assms(1) have a: "0 < a" by linarith
  have 1: "e < ilog2 a + 1"
  proof (rule ccontr)
    assume "\<not> e < ilog2 a + 1"
    then have "(2::rat) powi (ilog2 a + 1) \<le> 2 powi e"
      by (intro power_int_increasing) simp_all
    with assms(1) ilog2_less [OF a] show False by linarith
  qed
  have 2: "ilog2 a < e + 1"
  proof (rule ccontr)
    assume "\<not> ilog2 a < e + 1"
    then have "(2::rat) powi (e + 1) \<le> 2 powi (ilog2 a)"
      by (intro power_int_increasing) simp_all
    with assms(2) ilog2_le [OF a] show False by linarith
  qed
  from 1 2 show ?thesis by simp
qed

text \<open>Rounding a positive number whose binary exponent is known and in the normal range.\<close>

lemma round_even_cert:
  assumes "of_int n - 1 / 2 < x" and "x < of_int n + 1 / 2"
  shows "round_even x = n"
proof (cases "of_int n \<le> x")
  case True
  then have "\<lfloor>x\<rfloor> = n" using assms(2) by (intro floor_unique) simp_all
  then show ?thesis using assms(2) by (simp add: round_even_def Let_def)
next
  case False
  then have "\<lfloor>x\<rfloor> = n - 1" using assms(1) by (intro floor_unique) simp_all
  then show ?thesis using assms(1) by (simp add: round_even_def Let_def)
qed

lemma round_even_tie:
  assumes "x = of_int f + 1 / 2"
  shows "round_even x = (if even f then f else f + 1)"
proof -
  have "\<lfloor>x\<rfloor> = f" unfolding assms by (intro floor_unique) simp_all
  then show ?thesis by (simp add: round_even_def Let_def assms)
qed

lemma fl_cert:
  assumes "2 powi e \<le> q" and "q < 2 powi (e + 1)" and "- 1022 \<le> e" and "e < 1023"
    and "round_even (q / 2 powi (e - 52)) = n"
  shows "fl q = Fin (of_int n * 2 powi (e - 52))"
proof -
  have "(0::rat) < 2 powi e" by (simp add: zero_less_power_int)
  with assms(1) have "0 < q" by linarith
  then have q: "0 < q" "q \<noteq> 0" "\<bar>q\<bar> = q" by simp_all
  have e: "max (ilog2 q) (- 1022) = e"
    using ilog2_eq [OF assms(1,2)] assms(3) by simp
  have c: "\<not> (1023 < e \<or> (e = 1023 \<and> n = 9007199254740992))"
    using assms(4) by simp
  show ?thesis
    unfolding fl_def Let_def q(3) e assms(5) using q(1,2) c
    by (simp only: if_False if_True mult_1)
qed

lemma fl_zero: "fl 0 = Fin 0"
  by (simp add: fl_def)

subsection \<open>The cost of a call\<close>

lemma fl_2: "fl 2 = Fin 2"
  using fl_cert [of 1 2 4503599627370496] round_even_cert [of 4503599627370496 4503599627370496]
  by simp

lemma fl_1: "fl 1 = Fin 1"
  using fl_cert [of 0 1 4503599627370496] round_even_cert [of 4503599627370496 4503599627370496]
  by simp

lemma fl_00125: "fl (1 / 800) = Fin (5764607523034235 / 4611686018427387904)"
  using fl_cert [of "- 10" "1 / 800" 5764607523034235]
    round_even_cert [of 5764607523034235 "144115188075855872 / 25"]
  by simp

lemma fl_005: "fl (1 / 200) = Fin (5764607523034235 / 1152921504606846976)"
  using fl_cert [of "- 8" "1 / 200" 5764607523034235]
    round_even_cert [of 5764607523034235 "144115188075855872 / 25"]
  by simp

lemma fl_0025: "fl (1 / 400) = Fin (5764607523034235 / 2305843009213693952)"
  using fl_cert [of "- 9" "1 / 400" 5764607523034235]
    round_even_cert [of 5764607523034235 "144115188075855872 / 25"]
  by simp

lemma fl_0075: "fl (3 / 400) = Fin (1080863910568919 / 144115188075855872)"
  using fl_cert [of "- 8" "3 / 400" 8646911284551352]
    round_even_cert [of 8646911284551352 "216172782113783808 / 25"]
  by simp

lemma fl_double_rate:
  "fl (5764607523034235 / 2305843009213693952) = Fin (5764607523034235 / 2305843009213693952)"
  using fl_cert [of "- 9" "5764607523034235 / 2305843009213693952" 5764607523034235]
    round_even_cert [of 5764607523034235 5764607523034235]
  by simp

lemma fl_out_rate:
  "fl (5764607523034235 / 1152921504606846976) = Fin (5764607523034235 / 1152921504606846976)"
  using fl_cert [of "- 8" "5764607523034235 / 1152921504606846976" 5764607523034235]
    round_even_cert [of 5764607523034235 5764607523034235]
  by simp

lemma fl_cost_sum:
  "fl (17293822569102705 / 2305843009213693952) = Fin (1080863910568919 / 144115188075855872)"
  using fl_cert [of "- 8" "17293822569102705 / 2305843009213693952" 8646911284551352]
    round_even_tie [of "17293822569102705 / 2" 8646911284551352]
  by simp

lemma rates: "input_rate = Fin (5764607523034235 / 4611686018427387904)
            \<and> output_rate = Fin (5764607523034235 / 1152921504606846976)"
  by (simp add: input_rate_def output_rate_def fl_00125 fl_005)


lemma toFixed6_0075:
  "toFixed6 (Fin (1080863910568919 / 144115188075855872)) = Fin (1080863910568919 / 144115188075855872)"
proof -
  have "\<lfloor>(1080863910568919 / 144115188075855872 :: rat) * 10 ^ 6 + 1 / 2\<rfloor> = 7500"
    by (intro floor_unique) simp_all
  then show ?thesis by (simp add: fl_0075)
qed

lemma example_inputCost: "num_mul (num_div (Fin 2000) (Fin 1000)) input_rate = fl (25 / 10000)"
  by (simp add: rates fl_2 fl_double_rate fl_0025)

lemma example_outputCost: "num_mul (num_div (Fin 1000) (Fin 1000)) output_rate = fl (5 / 1000)"
  by (simp add: rates fl_1 fl_out_rate fl_005)

lemma example_totalCost: "num_add (fl (25 / 10000)) (fl (5 / 1000)) = fl (75 / 10000)"
  by (simp add: fl_0025 fl_005 fl_cost_sum fl_0075)

lemma example_fixed: "toFixed6 (fl (75 / 10000)) = fl (75 / 10000)"
  by (simp add: fl_0075 toFixed6_0075 del: toFixed6.simps)

lemma callGeminiAPI_Inr:
  assumes "callGeminiAPI c = Inr r"
  shows "\<exists>data t rest. outcome c = ApiOk data
           \<and> candidates data = Some (Candidate (Some t) # rest)
           \<and> r = \<lparr>replyText = t, timeTaken = Fin (of_int (elapsed c)), timestamp = stamp c,
                    usage = usage_of (usageMetadata data)\<rparr>"
  using assms
  by (auto simp: callGeminiAPI_def split: api_outcome.splits option.splits list.splits candidate.splits)

lemma callGeminiAPI_usage:
  assumes "callGeminiAPI c = Inr r"
  shows "\<exists>um. usage r = usage_of um"
  using assms
  by (auto simp: callGeminiAPI_def split: api_outcome.splits option.splits list.splits candidate.splits)

text \<open>
  Claim C9, as the code has it.  For every successful call the cost fields derive from
  the token counts alone: the function computes \<open>(inputTokens / 1000) \<times> 0.00125\<close>,
  \<open>(outputTokens / 1000) \<times> 0.005\<close> and their sum in binary64, and the fields
  \<open>inputCost\<close>, \<open>outputCost\<close> and \<open>totalCost\<close> it returns are these three numbers,
  each rounded to six decimals; the input rate is below the output rate.  For 2000
  input and 1000 output tokens the two costs are the numbers \<open>0.0025\<close> and \<open>0.005\<close>,
  and the total, before and after the rounding, is the number \<open>0.0075\<close>.
\<close>

theorem cost_computation:
  assumes "callGeminiAPI c = Inr r"
  shows "inputCost (usage r)
           = toFixed6 (num_mul (num_div (inputTokens (usage r)) (Fin 1000)) input_rate)
       \<and> outputCost (usage r)
           = toFixed6 (num_mul (num_div (outputTokens (usage r)) (Fin 1000)) output_rate)
       \<and> totalCost (usage r)
           = toFixed6 (num_add (num_mul (num_div (inputTokens (usage r)) (Fin 1000)) input_rate)
                               (num_mul (num_div (outputTokens (usage r)) (Fin 1000)) output_rate))
       \<and> (\<exists>a b. input_rate = Fin a \<and> output_rate = Fin b \<and> a < b)
       \<and> input_rate = fl (125 / 100000) \<and> output_rate = fl (5 / 1000)
       \<and> (inputTokens (usage r) = Fin 2000 \<and> outputTokens (usage r) = Fin 1000 \<longrightarrow>
            num_mul (num_div (Fin 2000) (Fin 1000)) input_rate = fl (25 / 10000)
          \<and> num_mul (num_div (Fin 1000) (Fin 1000)) output_rate = fl (5 / 1000)
          \<and> num_add (fl (25 / 10000)) (fl (5 / 1000)) = fl (75 / 10000)
          \<and> totalCost (usage r) = fl (75 / 10000))"
proof -
  from callGeminiAPI_usage [OF assms] obtain um where u: "usage r = usage_of um" ..
  have 1: "inputCost (usage r)
           = toFixed6 (num_mul (num_div (inputTokens (usage r)) (Fin 1000)) input_rate)"
    and 2: "outputCost (usage r)
           = toFixed6 (num_mul (num_div (outputTokens (usage r)) (Fin 1000)) output_rate)"
    and 3: "totalCost (usage r)
           = toFixed6 (num_add (num_mul (num_div (inputTokens (usage r)) (Fin 1000)) input_rate)
                               (num_mul (num_div (outputTokens (usage r)) (Fin 1000)) output_rate))"
    unfolding u usage_of_def Let_def raw_inputCost_def raw_outputCost_def raw_totalCost_def
    by (simp_all only: usage.simps)
  have "(5764607523034235 / 4611686018427387904 :: rat) < 5764607523034235 / 1152921504606846976"
    by simp
  with rates have 4: "\<exists>a b. input_rate = Fin a \<and> output_rate = Fin b \<and> a < b"
    by (intro exI conjI) (simp_all only:)
  have 5: "input_rate = fl (125 / 100000) \<and> output_rate = fl (5 / 1000)"
    by (simp add: input_rate_def output_rate_def)
  have 6: "num_mul (num_div (Fin 2000) (Fin 1000)) input_rate = fl (25 / 10000)
          \<and> num_mul (num_div (Fin 1000) (Fin 1000)) output_rate = fl (5 / 1000)
          \<and> num_add (fl (25 / 10000)) (fl (5 / 1000)) = fl (75 / 10000)
          \<and> totalCost (usage r) = fl (75 / 10000)"
    if t: "inputTokens (usage r) = Fin 2000 \<and> outputTokens (usage r) = Fin 1000"
  proof -
    from 3 t have "totalCost (usage r)
        = toFixed6 (num_add (num_mul (num_div (Fin 2000) (Fin 1000)) input_rate)
                            (num_mul (num_div (Fin 1000) (Fin 1000)) output_rate))"
      by (simp only:)
    then have "totalCost (usage r) = fl (75 / 10000)"
      by (simp only: example_inputCost example_outputCost example_totalCost example_fixed)
    with example_inputCost example_outputCost example_totalCost show ?thesis
      by (simp only: simp_thms)
  qed
  from 1 2 3 4 5 6 show ?thesis by blast
qed

lemma example_call_run: "callGeminiAPI example_call = Inr example_reply"
  by (simp add: callGeminiAPI_def example_call_def example_reply_def)

theorem cost_computation_witness:
  "callGeminiAPI example_call = Inr example_reply
   \<and> inputTokens (usage example_reply) = Fin 2000
   \<and> outputTokens (usage example_reply) = Fin 1000
   \<and> totalCost (usage example_reply) = fl (75 / 10000)
   \<and> fl (75 / 10000) = Fin (1080863910568919 / 144115188075855872)"
proof -
  have t: "inputTokens (usage example_reply) = Fin 2000 \<and> outputTokens (usage example_reply) = Fin 1000"
    by (simp add: example_reply_def usage_of_def Let_def count_or0_def del: toFixed6.simps)
  from cost_computation [OF example_call_run] t
  have "totalCost (usage example_reply) = fl (75 / 10000)" by blast
  moreover have "fl (75 / 10000) = Fin (1080863910568919 / 144115188075855872)"
    using fl_0075 by simp
  ultimately show ?thesis using example_call_run t by (simp only: simp_thms)
qed


lemma fl_0002: "fl (1 / 500) = Fin (1152921504606847 / 576460752303423488)"
  using fl_cert [of "- 9" "1 / 500" 4611686018427388]
    round_even_cert [of 4611686018427388 "576460752303423488 / 125"]
  by simp

lemma fl_0001: "fl (1 / 1000) = Fin (1152921504606847 / 1152921504606846976)"
  using fl_cert [of "- 10" "1 / 1000" 4611686018427388]
    round_even_cert [of 4611686018427388 "576460752303423488 / 125"]
  by simp

lemma fl_small_in:
  "fl (6646139978924579641220196407045 / 2658455991569831745807614120560689152)
     = Fin (5902958103587057 / 2361183241434822606848)"
  using fl_cert [of "- 19" "6646139978924579641220196407045 / 2658455991569831745807614120560689152"
                    5902958103587057]
    round_even_cert [of 5902958103587057 "6646139978924579641220196407045 / 1125899906842624"]
  by simp

lemma fl_small_out:
  "fl (6646139978924579641220196407045 / 1329227995784915872903807060280344576)
     = Fin (5902958103587057 / 1180591620717411303424)"
  using fl_cert [of "- 18" "6646139978924579641220196407045 / 1329227995784915872903807060280344576"
                    5902958103587057]
    round_even_cert [of 5902958103587057 "6646139978924579641220196407045 / 1125899906842624"]
  by simp

lemma fl_small_sum:
  "fl (17708874310761171 / 2361183241434822606848) = Fin (4427218577690293 / 590295810358705651712)"
  using fl_cert [of "- 18" "17708874310761171 / 2361183241434822606848" 8854437155380586]
    round_even_tie [of "17708874310761171 / 2" 8854437155380585]
  by simp

lemma fl_3e6: "fl (3 / 1000000) = Fin (1770887431076117 / 590295810358705651712)"
  using fl_cert [of "- 19" "3 / 1000000" 7083549724304468]
    round_even_cert [of 7083549724304468 "110680464442257309696 / 15625"]
  by simp

lemma fl_5e6: "fl (1 / 200000) = Fin (5902958103587057 / 1180591620717411303424)"
  using fl_cert [of "- 18" "1 / 200000" 5902958103587057]
    round_even_cert [of 5902958103587057 "18446744073709551616 / 3125"]
  by simp

lemma fl_8e6: "fl (1 / 125000) = Fin (4722366482869645 / 590295810358705651712)"
  using fl_cert [of "- 17" "1 / 125000" 4722366482869645]
    round_even_cert [of 4722366482869645 "73786976294838206464 / 15625"]
  by simp

lemma fl_fixed_sum:
  "fl (9444732965739291 / 1180591620717411303424) = Fin (2361183241434823 / 295147905179352825856)"
  using fl_cert [of "- 17" "9444732965739291 / 1180591620717411303424" 4722366482869646]
    round_even_tie [of "9444732965739291 / 2" 4722366482869645]
  by simp

lemma small_raw:
  "num_mul (num_div (Fin 2) (Fin 1000)) input_rate = Fin (5902958103587057 / 2361183241434822606848)"
  "num_mul (num_div (Fin 1) (Fin 1000)) output_rate = Fin (5902958103587057 / 1180591620717411303424)"
  "num_add (Fin (5902958103587057 / 2361183241434822606848))
           (Fin (5902958103587057 / 1180591620717411303424))
     = Fin (4427218577690293 / 590295810358705651712)"
  by (simp_all add: rates fl_0002 fl_0001 fl_small_in fl_small_out fl_small_sum)

lemma small_fixed:
  "toFixed6 (Fin (5902958103587057 / 2361183241434822606848)) = Fin (1770887431076117 / 590295810358705651712)"
  "toFixed6 (Fin (5902958103587057 / 1180591620717411303424)) = Fin (5902958103587057 / 1180591620717411303424)"
  "toFixed6 (Fin (4427218577690293 / 590295810358705651712)) = Fin (4722366482869645 / 590295810358705651712)"
proof -
  have "\<lfloor>(5902958103587057 / 2361183241434822606848 :: rat) * 10 ^ 6 + 1 / 2\<rfloor> = 3"
    by (intro floor_unique) simp_all
  then show "toFixed6 (Fin (5902958103587057 / 2361183241434822606848)) = Fin (1770887431076117 / 590295810358705651712)"
    by (simp add: fl_3e6)
  have "\<lfloor>(5902958103587057 / 1180591620717411303424 :: rat) * 10 ^ 6 + 1 / 2\<rfloor> = 5"
    by (intro floor_unique) simp_all
  then show "toFixed6 (Fin (5902958103587057 / 1180591620717411303424)) = Fin (5902958103587057 / 1180591620717411303424)"
    by (simp add: fl_5e6)
  have "\<lfloor>(4427218577690293 / 590295810358705651712 :: rat) * 10 ^ 6 + 1 / 2\<rfloor> = 8"
    by (intro floor_unique) simp_all
  then show "toFixed6 (Fin (4427218577690293 / 590295810358705651712)) = Fin (4722366482869645 / 590295810358705651712)"
    by (simp add: fl_8e6)
qed

lemma small_usage:
  "usage_of (Some \<lparr>promptTokenCount = Some (Fin 2), candidatesTokenCount = Some (Fin 1),
                    totalTokenCount = Some (Fin 3)\<rparr>)
     = \<lparr>inputTokens = Fin 2, outputTokens = Fin 1, totalTokens = Fin 3,
        inputCost = Fin (1770887431076117 / 590295810358705651712),
        outputCost = Fin (5902958103587057 / 1180591620717411303424),
        totalCost = Fin (4722366482869645 / 590295810358705651712)\<rparr>"
  unfolding usage_of_def Let_def raw_inputCost_def raw_outputCost_def raw_totalCost_def
  by (simp add: count_or0_def small_raw small_fixed
      del: toFixed6.simps num_mul.simps num_div.simps num_add.simps)

text \<open>
  The claim as stated fails on the fields returned: for 2 input tokens and 1 output
  token the returned \<open>inputCost\<close> is \<open>0.000003\<close>, where \<open>(2 / 1000) \<times> 0.00125\<close> is
  \<open>0.0000025\<close>, and the returned \<open>totalCost\<close> is \<open>0.000008\<close>, which is not the sum of
  the returned \<open>inputCost\<close> and \<open>outputCost\<close> (their sum in binary64 is the next number
  above \<open>0.000008\<close>).
\<close>

theorem rounded_cost_counterexample:
  "(\<exists>r. callGeminiAPI small_call = Inr r
        \<and> inputTokens (usage r) = Fin 2 \<and> outputTokens (usage r) = Fin 1
        \<and> inputCost (usage r) = Fin (1770887431076117 / 590295810358705651712)
        \<and> outputCost (usage r) = Fin (5902958103587057 / 1180591620717411303424)
        \<and> totalCost (usage r) = Fin (4722366482869645 / 590295810358705651712)
        \<and> inputCost (usage r) \<noteq> num_mul (num_div (Fin 2) (Fin 1000)) input_rate
        \<and> totalCost (usage r) \<noteq> num_add (inputCost (usage r)) (outputCost (usage r)))
   \<and> num_mul (num_div (Fin 2) (Fin 1000)) input_rate
       = Fin (5902958103587057 / 2361183241434822606848)
   \<and> num_add (Fin (1770887431076117 / 590295810358705651712))
              (Fin (5902958103587057 / 1180591620717411303424))
       = Fin (2361183241434823 / 295147905179352825856)
   \<and> fl (3 / 10 ^ 6) = Fin (1770887431076117 / 590295810358705651712)
   \<and> fl (5 / 10 ^ 6) = Fin (5902958103587057 / 1180591620717411303424)
   \<and> fl (8 / 10 ^ 6) = Fin (4722366482869645 / 590295810358705651712)"
proof -
  have c: "callGeminiAPI small_call
           = Inr \<lparr>replyText = ''{}'', timeTaken = Fin 1200, timestamp = ''2024-12-01T10:00:00.000Z'',
                  usage = \<lparr>inputTokens = Fin 2, outputTokens = Fin 1, totalTokens = Fin 3,
        inputCost = Fin (1770887431076117 / 590295810358705651712),
        outputCost = Fin (5902958103587057 / 1180591620717411303424),
        totalCost = Fin (4722366482869645 / 590295810358705651712)\<rparr>\<rparr>"
    by (simp add: callGeminiAPI_def small_call_def small_usage)
  have s: "num_add (Fin (1770887431076117 / 590295810358705651712))
              (Fin (5902958103587057 / 1180591620717411303424))
       = Fin (2361183241434823 / 295147905179352825856)"
    by (simp add: fl_fixed_sum)
  have f: "fl (3 / 10 ^ 6) = Fin (1770887431076117 / 590295810358705651712)"
    "fl (5 / 10 ^ 6) = Fin (5902958103587057 / 1180591620717411303424)"
    "fl (8 / 10 ^ 6) = Fin (4722366482869645 / 590295810358705651712)"
    by (simp_all add: fl_3e6 fl_5e6 fl_8e6)
  have 1: "\<exists>r. callGeminiAPI small_call = Inr r
        \<and> inputTokens (usage r) = Fin 2 \<and> outputTokens (usage r) = Fin 1
        \<and> inputCost (usage r) = Fin (1770887431076117 / 590295810358705651712)
        \<and> outputCost (usage r) = Fin (5902958103587057 / 1180591620717411303424)
        \<and> totalCost (usage r) = Fin (4722366482869645 / 590295810358705651712)
        \<and> inputCost (usage r) \<noteq> num_mul (num_div (Fin 2) (Fin 1000)) input_rate
        \<and> totalCost (usage r) \<noteq> num_add (inputCost (usage r)) (outputCost (usage r))"
    unfolding c by (simp add: small_raw(1) s del: num_mul.simps num_div.simps num_add.simps)
  from 1 small_raw(1) s f show ?thesis by (simp only: simp_thms)
qed


subsection \<open>The parsing step\<close>

lemma startsWith_append: "startsWith (p @ s) p"
  by (simp add: startsWith_def)

lemma startsWith_iff: "startsWith s p \<longleftrightarrow> (\<exists>r. s = p @ r)"
  unfolding startsWith_def
  by (metis append_eq_conv_conj append_take_drop_id)

lemma startsWith_Cons: "startsWith (x # xs) (y # p) \<longleftrightarrow> x = y \<and> startsWith xs p"
  by (simp add: startsWith_def)

lemma startsWith_Nil: "startsWith [] p \<longleftrightarrow> p = []"
  by (auto simp: startsWith_def)

lemma fence_close_not_Nil: "fence_close \<noteq> []"
  by (simp add: fence_close_def)

lemma lazy_capture_Some:
  "lazy_capture s = Some c \<Longrightarrow>
     startsWith s (c @ fence_close)
     \<and> (\<forall>b. length b < length c \<longrightarrow> \<not> startsWith s (b @ fence_close))"
proof (induction s arbitrary: c)
  case Nil
  then show ?case by simp
next
  case (Cons x xs)
  show ?case
  proof (cases "startsWith (x # xs) fence_close")
    case True
    with Cons.prems have "c = []" by simp
    with True show ?thesis by simp
  next
    case False
    with Cons.prems obtain c' where c': "lazy_capture xs = Some c'" "c = x # c'" by auto
    from Cons.IH [OF c'(1)] have ih: "startsWith xs (c' @ fence_close)"
      "\<And>b. length b < length c' \<Longrightarrow> \<not> startsWith xs (b @ fence_close)" by blast+
    have 1: "startsWith (x # xs) (c @ fence_close)"
      using ih(1) by (simp add: c'(2) startsWith_Cons)
    have 2: "\<not> startsWith (x # xs) (b @ fence_close)" if "length b < length c" for b
    proof (cases b)
      case Nil
      with False show ?thesis by simp
    next
      case (Cons y b')
      with that c'(2) have "length b' < length c'" by simp
      from ih(2) [OF this] show ?thesis by (simp add: Cons startsWith_Cons)
    qed
    from 1 2 show ?thesis by blast
  qed
qed

lemma lazy_capture_None: "lazy_capture s = None \<Longrightarrow> \<not> startsWith s (b @ fence_close)"
proof (induction s arbitrary: b)
  case Nil
  show ?case by (simp add: startsWith_Nil fence_close_not_Nil)
next
  case (Cons x xs)
  from Cons.prems have n: "\<not> startsWith (x # xs) fence_close" and r: "lazy_capture xs = None"
    by (auto split: if_splits)
  show ?case
  proof (cases b)
    case Nil
    with n show ?thesis by simp
  next
    case (Cons y b')
    from Cons.IH [OF r, of b'] show ?thesis by (simp add: Cons startsWith_Cons)
  qed
qed

lemma fence_at_0:
  "fence_at opn s 0 c \<longleftrightarrow> startsWith s opn \<and> startsWith (drop (length opn) s) (c @ fence_close)"
  unfolding fence_at_def startsWith_iff by auto

lemma fence_at_Suc: "fence_at opn (x # xs) (Suc i) c = fence_at opn xs i c"
  by (simp add: fence_at_def)

lemma fence_at_Nil: "\<not> fence_at opn [] i c"
  by (simp add: fence_at_def startsWith_Nil fence_close_not_Nil)

lemma fence_here_None:
  assumes "(if startsWith s opn then lazy_capture (drop (length opn) s) else None) = None"
  shows "\<not> fence_at opn s 0 b"
  using assms lazy_capture_None [of "drop (length opn) s" b]
  by (auto simp: fence_at_0 split: if_splits)

lemma fence_match_first:
  "fence_match opn t = Some c \<Longrightarrow>
     \<exists>i. fence_at opn t i c
        \<and> (\<forall>j b. j < i \<longrightarrow> \<not> fence_at opn t j b)
        \<and> (\<forall>b. length b < length c \<longrightarrow> \<not> fence_at opn t i b)"
proof (induction t)
  case Nil
  then show ?case by simp
next
  case (Cons x xs)
  let ?h = "if startsWith (x # xs) opn then lazy_capture (drop (length opn) (x # xs)) else None"
  show ?case
  proof (cases ?h)
    case (Some c')
    with Cons.prems have c: "c' = c" by simp
    from Some have s: "startsWith (x # xs) opn"
      and l: "lazy_capture (drop (length opn) (x # xs)) = Some c"
      unfolding c by (auto split: if_splits)
    from lazy_capture_Some [OF l] s
    have "fence_at opn (x # xs) 0 c
        \<and> (\<forall>j b. j < (0::nat) \<longrightarrow> \<not> fence_at opn (x # xs) j b)
        \<and> (\<forall>b. length b < length c \<longrightarrow> \<not> fence_at opn (x # xs) 0 b)"
      by (simp add: fence_at_0)
    then show ?thesis by blast
  next
    case None
    with Cons.prems have "fence_match opn xs = Some c" by simp
    from Cons.IH [OF this] obtain i where i: "fence_at opn xs i c"
      "\<And>j b. j < i \<Longrightarrow> \<not> fence_at opn xs j b"
      "\<And>b. length b < length c \<Longrightarrow> \<not> fence_at opn xs i b" by blast
    have 1: "fence_at opn (x # xs) (Suc i) c" using i(1) by (simp add: fence_at_Suc)
    have 2: "\<not> fence_at opn (x # xs) j b" if "j < Suc i" for j b
    proof (cases j)
      case 0
      with fence_here_None [OF None] show ?thesis by simp
    next
      case (Suc j')
      with that have "j' < i" by simp
      from i(2) [OF this] show ?thesis by (simp add: Suc fence_at_Suc)
    qed
    have 3: "\<not> fence_at opn (x # xs) (Suc i) b" if "length b < length c" for b
      using i(3) [OF that] by (simp add: fence_at_Suc)
    from 1 2 3 show ?thesis by blast
  qed
qed

lemma fence_match_None: "fence_match opn t = None \<Longrightarrow> \<not> fence_at opn t i b"
proof (induction t arbitrary: i)
  case Nil
  show ?case by (rule fence_at_Nil)
next
  case (Cons x xs)
  let ?h = "if startsWith (x # xs) opn then lazy_capture (drop (length opn) (x # xs)) else None"
  from Cons.prems have h: "?h = None" and r: "fence_match opn xs = None"
    by (auto split: option.splits)
  show ?case
  proof (cases i)
    case 0
    with fence_here_None [OF h] show ?thesis by simp
  next
    case (Suc i')
    from Cons.IH [OF r, of i'] show ?thesis by (simp add: Suc fence_at_Suc)
  qed
qed

lemma fence_body_unique:
  assumes "fence_at opn t i c" and "fence_at opn t i c'" and "length c = length c'"
  shows "c = c'"
proof -
  from assms(1,2) have "take (length (opn @ c @ fence_close)) (drop i t) = opn @ c @ fence_close"
    and "take (length (opn @ c' @ fence_close)) (drop i t) = opn @ c' @ fence_close"
    by (simp_all only: fence_at_def startsWith_def)
  with assms(3) have "opn @ c @ fence_close = opn @ c' @ fence_close" by simp
  then show ?thesis by simp
qed

lemma fence_match_iff:
  "fence_match opn t = Some c \<longleftrightarrow>
     (\<exists>i. fence_at opn t i c
        \<and> (\<forall>j b. j < i \<longrightarrow> \<not> fence_at opn t j b)
        \<and> (\<forall>b. length b < length c \<longrightarrow> \<not> fence_at opn t i b))"
proof
  assume "fence_match opn t = Some c"
  then show "\<exists>i. fence_at opn t i c
        \<and> (\<forall>j b. j < i \<longrightarrow> \<not> fence_at opn t j b)
        \<and> (\<forall>b. length b < length c \<longrightarrow> \<not> fence_at opn t i b)"
    by (rule fence_match_first)
next
  assume "\<exists>i. fence_at opn t i c
        \<and> (\<forall>j b. j < i \<longrightarrow> \<not> fence_at opn t j b)
        \<and> (\<forall>b. length b < length c \<longrightarrow> \<not> fence_at opn t i b)"
  then obtain i where i: "fence_at opn t i c"
      "\<And>j b. j < i \<Longrightarrow> \<not> fence_at opn t j b"
      "\<And>b. length b < length c \<Longrightarrow> \<not> fence_at opn t i b" by blast
  from i(1) fence_match_None [of opn t i c] obtain c' where m: "fence_match opn t = Some c'"
    by (cases "fence_match opn t") auto
  from fence_match_first [OF m] obtain i' where i': "fence_at opn t i' c'"
      "\<And>j b. j < i' \<Longrightarrow> \<not> fence_at opn t j b"
      "\<And>b. length b < length c' \<Longrightarrow> \<not> fence_at opn t i' b" by blast
  have e: "i' = i"
  proof (rule ccontr)
    assume "i' \<noteq> i"
    then consider "i' < i" | "i < i'" by linarith
    then show False
    proof cases
      case 1
      from i(2) [OF 1] i'(1) show False by blast
    next
      case 2
      from i'(2) [OF 2] i(1) show False by blast
    qed
  qed
  have l: "length c = length c'"
  proof (rule ccontr)
    assume "length c \<noteq> length c'"
    then consider "length c < length c'" | "length c' < length c" by linarith
    then show False
    proof cases
      case 1
      from i'(3) [OF 1] i(1) e show False by blast
    next
      case 2
      from i(3) [OF 2] i'(1) e show False by blast
    qed
  qed
  from fence_body_unique [OF i(1) _ l] i'(1) e have "c = c'" by blast
  with m show "fence_match opn t = Some c" by simp
qed

lemma fence_match_None_iff:
  "fence_match opn t = None \<longleftrightarrow> (\<forall>i b. \<not> fence_at opn t i b)"
proof
  assume "fence_match opn t = None"
  then show "\<forall>i b. \<not> fence_at opn t i b" using fence_match_None by blast
next
  assume a: "\<forall>i b. \<not> fence_at opn t i b"
  show "fence_match opn t = None"
  proof (cases "fence_match opn t")
    case None
    then show ?thesis .
  next
    case (Some c)
    from fence_match_first [OF Some] a show ?thesis by blast
  qed
qed


lemma parse_a1: "ref_JSON_parse ''{\"a\":1}'' = Inr (JObj [(''a'', JNum (Fin 1))])"
  by code_simp

lemma parse_bad: "ref_JSON_parse ''bad'' = Inl syntax_error_text"
  by code_simp

lemma parse_not_json: "ref_JSON_parse ''not json at all'' = Inl syntax_error_text"
  by code_simp

lemma fences_of_examples:
  "fence_json fenced_example = Some ''{\"a\":1}''"
  "fence_json ''{\"a\":1}'' = None" "fence_plain ''{\"a\":1}'' = None"
  "fence_json ''not json at all'' = None" "fence_plain ''not json at all'' = None"
  "fence_json two_fences = Some ''bad''"
  "fence_plain two_fences = Some ''{\"a\":1}''"
  "fence_json two_json_fences = Some ''{\"a\":1}''"
  by code_simp+


lemma parsed_call_Inr:
  "callGeminiAPI c = Inr r \<Longrightarrow>
   parsed_call prefix E c =
     (case parse_reply E (replyText r) of
        Inl m \<Rightarrow> Inl (Error (prefix @ m))
      | Inr d \<Rightarrow> Inr (with_meta d r))"
  by (simp add: parsed_call_def)

text \<open>
  Claim C1, as the code has it.  The parsing step of \<open>extractForms\<close> and of
  \<open>generateFieldValues\<close> chooses one text by the first pattern that matches: the body
  of the first fence opened by three backticks, \<open>json\<close> and a newline; otherwise the
  body of the first fence opened by three backticks and a newline; otherwise the whole
  reply.  It returns what \<open>JSON.parse\<close> makes of that one text, and fails with the
  parser's message when that text is not valid JSON: no later strategy is tried after a
  parse failure.  The first fence of a pattern is the one at the leftmost position where
  a fence of that pattern stands, and its body is the shortest body a fence has at that
  position, so it ends at the first newline followed by three backticks; the pattern
  does not match exactly when no fence of it stands anywhere.  The fenced example is
  parsed from its fence body and the two bare examples from the whole text.
\<close>

theorem parse_step_first_match:
  "(\<forall>c. fence_json t = Some c \<longrightarrow> parse_reply E t = JSON_parse E c)
   \<and> (\<forall>c. fence_json t = None \<and> fence_plain t = Some c \<longrightarrow> parse_reply E t = JSON_parse E c)
   \<and> (fence_json t = None \<and> fence_plain t = None \<longrightarrow> parse_reply E t = JSON_parse E t)
   \<and> (\<forall>c. fence_json t = Some c \<longleftrightarrow>
          (\<exists>i. fence_at (ticks @ ''json\<newline>'') t i c
              \<and> (\<forall>j b. j < i \<longrightarrow> \<not> fence_at (ticks @ ''json\<newline>'') t j b)
              \<and> (\<forall>b. length b < length c \<longrightarrow> \<not> fence_at (ticks @ ''json\<newline>'') t i b)))
   \<and> (fence_json t = None \<longleftrightarrow> (\<forall>i b. \<not> fence_at (ticks @ ''json\<newline>'') t i b))
   \<and> (\<forall>c. fence_plain t = Some c \<longleftrightarrow>
          (\<exists>i. fence_at (ticks @ ''\<newline>'') t i c
              \<and> (\<forall>j b. j < i \<longrightarrow> \<not> fence_at (ticks @ ''\<newline>'') t j b)
              \<and> (\<forall>b. length b < length c \<longrightarrow> \<not> fence_at (ticks @ ''\<newline>'') t i b)))
   \<and> (fence_plain t = None \<longleftrightarrow> (\<forall>i b. \<not> fence_at (ticks @ ''\<newline>'') t i b))
   \<and> (\<forall>r. callGeminiAPI call = Inr r \<and> replyText r = t \<longrightarrow>
          extractForms E call =
            (case parse_reply E t of
               Inl m \<Rightarrow> Inl (Error (''Failed to extract forms: '' @ m))
             | Inr d \<Rightarrow> Inr (with_meta d r)))
   \<and> (\<forall>r line. callGeminiAPI call = Inr r \<and> replyText r = t
            \<and> form \<noteq> JNull \<and> form \<noteq> JUndefined
            \<and> to_str E (if truthy (get_prop form ''formId'') then get_prop form ''formId''
                         else JStr ''unknown'') = Inr line \<longrightarrow>
          generateFieldValues E call form =
            (case parse_reply E t of
               Inl m \<Rightarrow> Inl (Error (''Failed to generate field values: '' @ m))
             | Inr d \<Rightarrow> Inr (with_meta d r)))
   \<and> parse_reply E fenced_example = JSON_parse E ''{\"a\":1}''
   \<and> parse_reply E ''{\"a\":1}'' = JSON_parse E ''{\"a\":1}''
   \<and> parse_reply E ''not json at all'' = JSON_parse E ''not json at all''"
proof -
  have j: "ticks @ ''json'' @ [CHR 0x0A] = ticks @ ''json\<newline>''" by simp
  have 1: "\<forall>c. fence_json t = Some c \<longrightarrow> parse_reply E t = JSON_parse E c"
    by (simp add: parse_reply_def)
  have 2: "\<forall>c. fence_json t = None \<and> fence_plain t = Some c \<longrightarrow> parse_reply E t = JSON_parse E c"
    by (simp add: parse_reply_def)
  have 3: "fence_json t = None \<and> fence_plain t = None \<longrightarrow> parse_reply E t = JSON_parse E t"
    by (simp add: parse_reply_def)
  have 4: "\<forall>c. fence_json t = Some c \<longleftrightarrow>
          (\<exists>i. fence_at (ticks @ ''json\<newline>'') t i c
              \<and> (\<forall>j b. j < i \<longrightarrow> \<not> fence_at (ticks @ ''json\<newline>'') t j b)
              \<and> (\<forall>b. length b < length c \<longrightarrow> \<not> fence_at (ticks @ ''json\<newline>'') t i b))"
    unfolding fence_json_def j using fence_match_iff [of "ticks @ ''json\<newline>''" t] by blast
  have 5: "fence_json t = None \<longleftrightarrow> (\<forall>i b. \<not> fence_at (ticks @ ''json\<newline>'') t i b)"
    unfolding fence_json_def j by (rule fence_match_None_iff)
  have 6: "\<forall>c. fence_plain t = Some c \<longleftrightarrow>
          (\<exists>i. fence_at (ticks @ ''\<newline>'') t i c
              \<and> (\<forall>j b. j < i \<longrightarrow> \<not> fence_at (ticks @ ''\<newline>'') t j b)
              \<and> (\<forall>b. length b < length c \<longrightarrow> \<not> fence_at (ticks @ ''\<newline>'') t i b))"
    unfolding fence_plain_def using fence_match_iff [of "ticks @ ''\<newline>''" t] by blast
  have 7: "fence_plain t = None \<longleftrightarrow> (\<forall>i b. \<not> fence_at (ticks @ ''\<newline>'') t i b)"
    unfolding fence_plain_def by (rule fence_match_None_iff)
  have 8: "\<forall>r. callGeminiAPI call = Inr r \<and> replyText r = t \<longrightarrow>
          extractForms E call =
            (case parse_reply E t of
               Inl m \<Rightarrow> Inl (Error (''Failed to extract forms: '' @ m))
             | Inr d \<Rightarrow> Inr (with_meta d r))"
    by (auto simp: extractForms_def parsed_call_Inr)
  have 9: "\<forall>r line. callGeminiAPI call = Inr r \<and> replyText r = t
            \<and> form \<noteq> JNull \<and> form \<noteq> JUndefined
            \<and> to_str E (if truthy (get_prop form ''formId'') then get_prop form ''formId''
                         else JStr ''unknown'') = Inr line \<longrightarrow>
          generateFieldValues E call form =
            (case parse_reply E t of
               Inl m \<Rightarrow> Inl (Error (''Failed to generate field values: '' @ m))
             | Inr d \<Rightarrow> Inr (with_meta d r))"
    by (auto simp: generateFieldValues_def Let_def parsed_call_Inr)
  have 10: "parse_reply E fenced_example = JSON_parse E ''{\"a\":1}''"
    by (simp add: parse_reply_def fences_of_examples)
  have 11: "parse_reply E ''{\"a\":1}'' = JSON_parse E ''{\"a\":1}''"
    by (simp add: parse_reply_def fences_of_examples)
  have 12: "parse_reply E ''not json at all'' = JSON_parse E ''not json at all''"
    by (simp add: parse_reply_def fences_of_examples)
  from 1 2 3 4 5 6 7 8 9 10 11 12 show ?thesis by (intro conjI)
qed

theorem parse_step_first_match_witness:
  "fence_json fenced_example = Some ''{\"a\":1}''
   \<and> parse_reply ref_engine fenced_example = Inr (JObj [(''a'', JNum (Fin 1))])
   \<and> fence_json ''{\"a\":1}'' = None \<and> fence_plain ''{\"a\":1}'' = None
   \<and> parse_reply ref_engine ''{\"a\":1}'' = Inr (JObj [(''a'', JNum (Fin 1))])
   \<and> parse_reply ref_engine ''not json at all'' = Inl syntax_error_text
   \<and> fence_json two_json_fences = Some ''{\"a\":1}''
   \<and> fence_at (ticks @ ''json\<newline>'') two_json_fences 0 ''{\"a\":1}''
   \<and> fence_at (ticks @ ''json\<newline>'') two_json_fences 20 ''{\"b\":2}''
   \<and> fence_at (ticks @ ''json\<newline>'') two_json_fences 0
        (''{\"a\":1}\<newline>'' @ ticks @ ''\<newline>'' @ ticks @ ''json\<newline>{\"b\":2}'')
   \<and> (\<exists>i. fence_at (ticks @ ''json\<newline>'') two_json_fences i ''{\"a\":1}''
          \<and> (\<forall>j b. j < i \<longrightarrow> \<not> fence_at (ticks @ ''json\<newline>'') two_json_fences j b)
          \<and> (\<forall>b. length b < length ''{\"a\":1}''
                  \<longrightarrow> \<not> fence_at (ticks @ ''json\<newline>'') two_json_fences i b))
   \<and> parse_reply ref_engine two_json_fences = Inr (JObj [(''a'', JNum (Fin 1))])"
proof -
  have j: "JSON_parse ref_engine = ref_JSON_parse" by (simp add: ref_engine_def)
  note t1 = parse_step_first_match [of fenced_example ref_engine]
  from t1 fences_of_examples(1)
  have "parse_reply ref_engine fenced_example = JSON_parse ref_engine ''{\"a\":1}''" by blast
  then have 1: "parse_reply ref_engine fenced_example = Inr (JObj [(''a'', JNum (Fin 1))])"
    by (simp only: j parse_a1)
  note t2 = parse_step_first_match [of "''{\"a\":1}''" ref_engine]
  from t2 fences_of_examples(2,3)
  have "parse_reply ref_engine ''{\"a\":1}'' = JSON_parse ref_engine ''{\"a\":1}''" by blast
  then have 2: "parse_reply ref_engine ''{\"a\":1}'' = Inr (JObj [(''a'', JNum (Fin 1))])"
    by (simp only: j parse_a1)
  note t3 = parse_step_first_match [of "''not json at all''" ref_engine]
  from t3 fences_of_examples(4,5)
  have "parse_reply ref_engine ''not json at all'' = JSON_parse ref_engine ''not json at all''" by blast
  then have 3: "parse_reply ref_engine ''not json at all'' = Inl syntax_error_text"
    by (simp only: j parse_not_json)
  note t4 = parse_step_first_match [of two_json_fences ref_engine]
  from t4 fences_of_examples(8)
  have "parse_reply ref_engine two_json_fences = JSON_parse ref_engine ''{\"a\":1}''" by blast
  then have 4: "parse_reply ref_engine two_json_fences = Inr (JObj [(''a'', JNum (Fin 1))])"
    by (simp only: j parse_a1)
  from t4 fences_of_examples(8)
  have 5: "\<exists>i. fence_at (ticks @ ''json\<newline>'') two_json_fences i ''{\"a\":1}''
          \<and> (\<forall>j b. j < i \<longrightarrow> \<not> fence_at (ticks @ ''json\<newline>'') two_json_fences j b)
          \<and> (\<forall>b. length b < length ''{\"a\":1}''
                  \<longrightarrow> \<not> fence_at (ticks @ ''json\<newline>'') two_json_fences i b)"
    by blast
  have 6: "fence_at (ticks @ ''json\<newline>'') two_json_fences 0 ''{\"a\":1}''"
    "fence_at (ticks @ ''json\<newline>'') two_json_fences 20 ''{\"b\":2}''"
    "fence_at (ticks @ ''json\<newline>'') two_json_fences 0
        (''{\"a\":1}\<newline>'' @ ticks @ ''\<newline>'' @ ticks @ ''json\<newline>{\"b\":2}'')"
    by code_simp+
  from 1 2 3 4 5 6 fences_of_examples(1,2,3,8) show ?thesis by (intro conjI)
qed

text \<open>
  The claim as stated fails: in this reply the fence labelled \<open>json\<close> holds text that
  is not JSON, the unlabelled fence before it holds a valid object, and the step fails
  instead of returning that object.
\<close>

theorem later_strategy_counterexample:
  "fence_json two_fences = Some ''bad''
   \<and> JSON_parse ref_engine ''bad'' = Inl syntax_error_text
   \<and> fence_plain two_fences = Some ''{\"a\":1}''
   \<and> JSON_parse ref_engine ''{\"a\":1}'' = Inr (JObj [(''a'', JNum (Fin 1))])
   \<and> parse_reply ref_engine two_fences = Inl syntax_error_text
   \<and> extractForms ref_engine two_fences_call
       = Inl (Error (''Failed to extract forms: '' @ syntax_error_text))"
proof -
  have j: "JSON_parse ref_engine = ref_JSON_parse" by (simp add: ref_engine_def)
  have p: "parse_reply ref_engine two_fences = Inl syntax_error_text"
    by (simp add: parse_reply_def fences_of_examples j parse_bad)
  have c: "callGeminiAPI two_fences_call
           = Inr \<lparr>replyText = two_fences, timeTaken = Fin 900, timestamp = ''2024-12-01T10:00:00.000Z'',
                  usage = usage_of None\<rparr>"
    by (simp add: callGeminiAPI_def two_fences_call_def)
  have e: "extractForms ref_engine two_fences_call
       = Inl (Error (''Failed to extract forms: '' @ syntax_error_text))"
    unfolding extractForms_def parsed_call_Inr [OF c] by (simp add: p)
  from p e fences_of_examples(6,7) parse_bad parse_a1 show ?thesis
    by (simp only: j simp_thms)
qed


subsection \<open>The complete analysis\<close>

lemma map_of_foldl_update:
  "map_of (foldl (\<lambda>al (k, v). AList.update k v al) base kvs) = map_of base ++ map_of (rev kvs)"
proof (induction kvs arbitrary: base)
  case Nil
  show ?case by simp
next
  case (Cons kv kvs)
  obtain k v where kv: "kv = (k, v)" by (cases kv)
  have "map_of (foldl (\<lambda>al (k, v). AList.update k v al) base (kv # kvs))
        = map_of (AList.update k v base) ++ map_of (rev kvs)"
    using Cons.IH [of "AList.update k v base"] by (simp add: kv)
  also have "\<dots> = (map_of base)(k \<mapsto> v) ++ map_of (rev kvs)"
    by (simp add: update_conv')
  also have "\<dots> = map_of base ++ map_of (rev (kv # kvs))"
    by (simp add: kv map_add_def fun_eq_iff split: option.splits)
  finally show ?case .
qed

lemma get_prop_obj_lit:
  "get_prop (obj_lit base kvs) k =
     (case map_of (rev kvs) k of
        Some v \<Rightarrow> v
      | None \<Rightarrow> (case map_of base k of Some v \<Rightarrow> v | None \<Rightarrow> JUndefined))"
  by (simp add: obj_lit_def map_of_foldl_update map_add_def split: option.splits)

lemma get_prop_own_props_JObj: "get_prop (JObj (own_props (JObj kvs))) k = get_prop (JObj kvs) k"
  by simp

lemma extractForms_Inr:
  assumes "extractForms E c = Inr fd"
  shows "\<exists>r pd. callGeminiAPI c = Inr r \<and> parse_reply E (replyText r) = Inr pd \<and> fd = with_meta pd r"
  using assms
  by (auto simp: extractForms_def parsed_call_def split: sum.splits)

lemma generateFieldValues_Inr:
  assumes "generateFieldValues E c form = Inr vals"
  shows "\<exists>r pd. callGeminiAPI c = Inr r \<and> parse_reply E (replyText r) = Inr pd \<and> vals = with_meta pd r"
  using assms
  by (auto simp: generateFieldValues_def parsed_call_def Let_def split: sum.splits if_splits)

lemma with_meta_usage: "get_prop (with_meta pd r) ''usage'' = usage_obj (usage r)"
  by (simp add: with_meta_def get_prop_obj_lit)

lemma with_meta_performance:
  "get_prop (with_meta pd r) ''performance''
     = JObj [(''timeTaken'', JNum (timeTaken r)), (''timestamp'', JStr (timestamp r))]"
  by (simp add: with_meta_def get_prop_obj_lit)

lemma or0_JNum: "or0 (JNum x) = JNum (nz x)"
  by (auto simp: or0_def nz_def)

lemma js_add_JNum: "js_add E (JNum a) (JNum b) = Inr (JNum (num_add a b))"
  by (simp add: js_add_def)

lemma usage_obj_props:
  "get_prop (usage_obj u) ''inputTokens'' = JNum (inputTokens u)"
  "get_prop (usage_obj u) ''outputTokens'' = JNum (outputTokens u)"
  "get_prop (usage_obj u) ''totalTokens'' = JNum (totalTokens u)"
  "get_prop (usage_obj u) ''inputCost'' = JNum (inputCost u)"
  "get_prop (usage_obj u) ''outputCost'' = JNum (outputCost u)"
  "get_prop (usage_obj u) ''totalCost'' = JNum (totalCost u)"
  by (simp_all add: usage_obj_def)

lemma initial_usage_with_meta:
  "initial_usage (with_meta pd r) =
     jv \<lparr>inputTokens = nz (inputTokens (usage r)), outputTokens = nz (outputTokens (usage r)),
         totalTokens = nz (totalTokens (usage r)), inputCost = nz (inputCost (usage r)),
         outputCost = nz (outputCost (usage r)), totalCost = nz (totalCost (usage r))\<rparr>"
  by (simp add: initial_usage_def with_meta_usage Let_def opt_prop_def usage_obj_props or0_JNum jv_def
      usage_obj_def [THEN arg_cong [where f = "\<lambda>v. v = JUndefined"]]
      usage_obj_def [THEN arg_cong [where f = "\<lambda>v. v = JNull"]])

lemma is_descriptor_obj:
  assumes "is_descriptor form"
  obtains kvs where "form = JObj kvs" "map_of kvs ''valueGenerationPerformance'' = None"
  using assms by (cases form) (auto simp: is_descriptor_def)

lemma to_str_primitive: "is_primitive v \<Longrightarrow> \<exists>s. to_str E v = Inr s"
  by (cases v) simp_all

lemma descriptor_formId:
  assumes "is_descriptor form"
  shows "is_primitive (get_prop form ''formId'')"
  using assms by (cases form) (auto simp: is_descriptor_def)

lemma generateFieldValues_descriptor:
  assumes "is_descriptor form"
  shows "generateFieldValues E c form = parsed_call ''Failed to generate field values: '' E c"
proof -
  from descriptor_formId [OF assms]
  have "is_primitive (if truthy (get_prop form ''formId'') then get_prop form ''formId''
                      else JStr ''unknown'')"
    by simp
  from to_str_primitive [OF this] obtain line
    where "to_str E (if truthy (get_prop form ''formId'') then get_prop form ''formId''
                     else JStr ''unknown'') = Inr line" ..
  moreover from assms have "form \<noteq> JNull" "form \<noteq> JUndefined"
    by (auto simp: is_descriptor_def)
  ultimately show ?thesis by (simp add: generateFieldValues_def Let_def)
qed

lemma form_entry_failure:
  assumes "is_descriptor form" and "generateFieldValues E c form = Inl e"
  shows "form_entry E c form =
           Inr (obj_lit (own_props form)
                  [(''suggestedValues'', JNull),
                   (''validationStatus'', JObj [(''error'', JStr (message e))])])"
proof -
  from to_str_primitive [OF descriptor_formId [OF assms(1)]] obtain line
    where "to_str E (get_prop form ''formId'') = Inr line" ..
  moreover from assms(1) have "form \<noteq> JNull" "form \<noteq> JUndefined"
    by (auto simp: is_descriptor_def)
  ultimately show ?thesis using assms(2) by (simp add: form_entry_def)
qed

lemma form_entry_success:
  assumes "generateFieldValues E c form = Inr vals"
  shows "form_entry E c form =
           Inr (obj_lit (own_props form)
                 [(''suggestedValues'', get_prop vals ''values''),
                  (''validationStatus'', get_prop vals ''metadata''),
                  (''valueGenerationPerformance'',
                     obj_lit (own_props (get_prop vals ''performance''))
                       [(''usage'', get_prop vals ''usage'')])])"
  using assms by (simp add: form_entry_def)

lemma form_entry_Inr:
  assumes "is_descriptor form"
  shows "\<exists>entry. form_entry E c form = Inr entry"
proof (cases "generateFieldValues E c form")
  case (Inl e)
  from form_entry_failure [OF assms Inl] show ?thesis by blast
next
  case (Inr vals)
  from form_entry_success [OF Inr] show ?thesis by blast
qed

lemma usage_step_failure:
  assumes "is_descriptor form"
  shows "usage_step E acc
           (obj_lit (own_props form)
              [(''suggestedValues'', JNull), (''validationStatus'', JObj [(''error'', JStr m)])])
         = Inr acc"
  using assms
  by (auto elim!: is_descriptor_obj simp: usage_step_def get_prop_obj_lit opt_prop_def Let_def)

lemma usage_step_success:
  "usage_step E (jv a)
     (obj_lit base
        [(''suggestedValues'', sv), (''validationStatus'', vs),
         (''valueGenerationPerformance'', obj_lit pbase [(''usage'', usage_obj u)])])
   = Inr (jv (add_usage a u))"
proof -
  have g: "get_prop (obj_lit base
        [(''suggestedValues'', sv), (''validationStatus'', vs),
         (''valueGenerationPerformance'', obj_lit pbase [(''usage'', usage_obj u)])])
        ''valueGenerationPerformance'' = obj_lit pbase [(''usage'', usage_obj u)]"
    by (simp add: get_prop_obj_lit)
  have o: "opt_prop (obj_lit pbase [(''usage'', usage_obj u)]) ''usage'' = usage_obj u"
    by (simp add: opt_prop_def get_prop_obj_lit) (simp add: obj_lit_def)
  have t: "truthy (usage_obj u)" by (simp add: usage_obj_def)
  show ?thesis
    unfolding usage_step_def g o Let_def
    by (simp add: t usage_obj_props or0_JNum jv_def js_add_JNum add_usage_def and_then_def)
qed

lemma promise_all_map_Inr:
  assumes "\<forall>p \<in> set ps. \<exists>x. F p = Inr x"
  shows "promise_all (map F ps) = Inr (map (\<lambda>p. projr (F p)) ps)"
  using assms
proof (induction ps)
  case Nil
  show ?case by simp
next
  case (Cons p ps)
  from Cons.prems obtain x where x: "F p = Inr x" by auto
  from Cons have "promise_all (map F ps) = Inr (map (\<lambda>p. projr (F p)) ps)" by simp
  with x show ?case by simp
qed

lemma fold_usage:
  assumes "\<forall>p \<in> set ps. is_descriptor (snd p)"
  shows "reduce (usage_step E) (jv a)
           (map (\<lambda>p. projr (case p of (i, form) \<Rightarrow> form_entry E (gen i) form)) ps)
         = Inr (jv (foldl add_usage a
                      (List.map_filter (\<lambda>(i, form). generation_usage E (gen i) form) ps)))"
  using assms
proof (induction ps arbitrary: a)
  case Nil
  show ?case by (simp add: List.map_filter_simps)
next
  case (Cons p ps)
  obtain i form where p: "p = (i, form)" by (cases p)
  from Cons.prems p have d: "is_descriptor form" by simp
  from Cons.prems have rest: "\<forall>p \<in> set ps. is_descriptor (snd p)" by simp
  show ?case
  proof (cases "generateFieldValues E (gen i) form")
    case (Inl e)
    have g: "generation_usage E (gen i) form = None"
      by (simp add: generation_usage_def Inl)
    show ?thesis
      using Cons.IH [OF rest, of a]
      by (simp add: p form_entry_failure [OF d Inl] usage_step_failure [OF d] g
          List.map_filter_simps)
  next
    case (Inr vals)
    from generateFieldValues_Inr [OF Inr] obtain r pd
      where r: "callGeminiAPI (gen i) = Inr r" and v: "vals = with_meta pd r" by blast
    have g: "generation_usage E (gen i) form = Some (usage r)"
      by (simp add: generation_usage_def Inr r)
    have u: "get_prop vals ''usage'' = usage_obj (usage r)"
      by (simp add: v with_meta_usage)
    show ?thesis
      using Cons.IH [OF rest, of "add_usage a (usage r)"]
      by (simp add: p form_entry_success [OF Inr] u usage_step_success g List.map_filter_simps)
  qed
qed

lemma totalUsage_obj_jv:
  "totalUsage_obj (jv t) =
     Inr (usage_obj (t\<lparr>inputCost := toFixed6 (inputCost t), outputCost := toFixed6 (outputCost t),
                        totalCost := toFixed6 (totalCost t)\<rparr>))"
  by (simp add: totalUsage_obj_def jv_def obj_lit_def usage_obj_def del: toFixed6.simps)

lemma analyze_descriptors:
  assumes ex: "extractForms E (extraction env) = Inr fd"
    and forms: "get_prop fd ''forms'' = JArr fs"
    and d: "\<forall>f \<in> set fs. is_descriptor f"
    and r0: "callGeminiAPI (extraction env) = Inr r0"
  shows "analyzeFormsComplete E env =
           Inr (obj_lit (own_props fd)
                  [(''forms'', JArr (map (\<lambda>p. projr (case p of (i, form) \<Rightarrow>
                                                          form_entry E (generation env i) form))
                                         (enumerate 0 fs))),
                   (''timestamp'', JStr (isoTime env)),
                   (''performance'', performance_obj env (length fs)),
                   (''totalUsage'', usage_obj (summed_usage E env (usage r0) fs))])"
proof -
  from extractForms_Inr [OF ex] r0 obtain pd where fd: "fd = with_meta pd r0" by auto
  let ?F = "\<lambda>p. case p of (i, form) \<Rightarrow> form_entry E (generation env i) form"
  have dd: "\<forall>p \<in> set (enumerate 0 fs). is_descriptor (snd p)"
    using d by (auto simp: in_set_enumerate_eq)
  have "\<forall>p \<in> set (enumerate 0 fs). \<exists>x. ?F p = Inr x"
    using dd form_entry_Inr by (auto simp: split_beta)
  from promise_all_map_Inr [OF this]
  have pa: "promise_all (map ?F (enumerate 0 fs)) = Inr (map (\<lambda>p. projr (?F p)) (enumerate 0 fs))" .
  have iu: "initial_usage fd =
     jv \<lparr>inputTokens = nz (inputTokens (usage r0)), outputTokens = nz (outputTokens (usage r0)),
         totalTokens = nz (totalTokens (usage r0)), inputCost = nz (inputCost (usage r0)),
         outputCost = nz (outputCost (usage r0)), totalCost = nz (totalCost (usage r0))\<rparr>"
    unfolding fd by (rule initial_usage_with_meta)
  have tu: "and_then (reduce (usage_step E) (initial_usage fd)
                        (map (\<lambda>p. projr (?F p)) (enumerate 0 fs)))
              totalUsage_obj
            = Inr (usage_obj (summed_usage E env (usage r0) fs))"
    unfolding iu fold_usage [OF dd] and_then_def sum.case totalUsage_obj_jv summed_usage_def Let_def ..
  show ?thesis
    using pa tu by (simp add: analyzeFormsComplete_def ex forms)
qed



lemma fl_of_int_cases:
  fixes d :: int
  shows "(d = 0 \<and> fl (of_int d) = Fin 0)
       \<or> (0 < d \<and> (fl (of_int d) = PInf \<or> (\<exists>r. 0 < r \<and> fl (of_int d) = Fin r)))
       \<or> (d < 0 \<and> (fl (of_int d) = NInf \<or> (\<exists>r. r < 0 \<and> fl (of_int d) = Fin r)))"
  using fl_int_sign [of d] by (cases "d = 0"; cases "0 < d") (auto simp: fl_zero)

lemma average_of_no_forms:
  "Math_round (num_div (num_sub (Fin (of_int a)) (Fin (of_int b))) (Fin 0))
     = (if a = b then NaN else if b < a then PInf else NInf)"
proof -
  have s: "num_sub (Fin (of_int a)) (Fin (of_int b)) = fl (of_int (a - b))" by simp
  from fl_of_int_cases [of "a - b"] show ?thesis
    unfolding s by (elim disjE conjE exE) auto
qed

text \<open>
  Claim C10.  When the extraction yields an empty \<open>forms\<close> array, the analysis
  completes and \<open>averageTimePerForm\<close> is \<open>Math.round(valueGenerationTime / 0)\<close>:
  \<open>NaN\<close> when the two clock readings around the (empty) generation phase are equal,
  and an infinity otherwise; in no case a finite number.
\<close>

theorem empty_forms_average_not_finite:
  assumes "extractForms E (extraction env) = Inr fd"
    and "get_prop fd ''forms'' = JArr []"
  shows "\<exists>res. analyzeFormsComplete E env = Inr res
          \<and> get_prop (get_prop res ''performance'') ''averageTimePerForm''
              = JNum (if now env 4 = now env 3 then NaN
                      else if now env 3 < now env 4 then PInf else NInf)
          \<and> (\<forall>x. get_prop (get_prop res ''performance'') ''averageTimePerForm'' \<noteq> JNum (Fin x))"
proof -
  from extractForms_Inr [OF assms(1)] obtain r0 where r0: "callGeminiAPI (extraction env) = Inr r0"
    by blast
  have d: "\<forall>f \<in> set []. is_descriptor f" by simp
  note a = analyze_descriptors [OF assms d r0]
  have p: "get_prop (performance_obj env 0) ''averageTimePerForm''
           = JNum (if now env 4 = now env 3 then NaN
                   else if now env 3 < now env 4 then PInf else NInf)"
    unfolding performance_obj_def Let_def
    by (simp add: average_of_no_forms del: num_sub.simps num_div.simps Math_round.simps)
  show ?thesis
    unfolding a by (simp add: get_prop_obj_lit p)
qed

text \<open>
  The total, in general.  \<open>totalUsage\<close> is the usage of the extraction call
  plus, for every form whose value generation succeeded, the usage of that form's call,
  added field by field from left to right with the three costs rounded to six decimals
  at the end.  A form whose value generation failed contributes nothing, whether or not
  its call had reported usage before the failure.
\<close>

lemma usage_aggregation:
  assumes "extractForms E (extraction env) = Inr fd"
    and "get_prop fd ''forms'' = JArr fs"
    and "\<forall>f \<in> set fs. is_descriptor f"
  shows "\<exists>res r0.
           analyzeFormsComplete E env = Inr res
         \<and> callGeminiAPI (extraction env) = Inr r0
         \<and> get_prop res ''totalUsage'' = usage_obj (summed_usage E env (usage r0) fs)
         \<and> (\<forall>i < length fs. \<forall>e.
               generateFieldValues E (generation env i) (fs ! i) = Inl e
               \<longrightarrow> generation_usage E (generation env i) (fs ! i) = None)
         \<and> (\<forall>i < length fs. \<forall>vals.
               generateFieldValues E (generation env i) (fs ! i) = Inr vals
               \<longrightarrow> (\<exists>r. callGeminiAPI (generation env i) = Inr r
                        \<and> generation_usage E (generation env i) (fs ! i) = Some (usage r)))"
proof -
  from extractForms_Inr [OF assms(1)] obtain r0 where r0: "callGeminiAPI (extraction env) = Inr r0"
    by blast
  note a = analyze_descriptors [OF assms r0]
  have t: "get_prop (obj_lit (own_props fd)
                  [(''forms'', JArr (map (\<lambda>p. projr (case p of (i, form) \<Rightarrow>
                                                          form_entry E (generation env i) form))
                                         (enumerate 0 fs))),
                   (''timestamp'', JStr (isoTime env)),
                   (''performance'', performance_obj env (length fs)),
                   (''totalUsage'', usage_obj (summed_usage E env (usage r0) fs))]) ''totalUsage''
           = usage_obj (summed_usage E env (usage r0) fs)"
    by (simp add: get_prop_obj_lit)
  have f: "\<forall>i < length fs. \<forall>e.
               generateFieldValues E (generation env i) (fs ! i) = Inl e
               \<longrightarrow> generation_usage E (generation env i) (fs ! i) = None"
    by (simp add: generation_usage_def)
  have s: "\<forall>i < length fs. \<forall>vals.
               generateFieldValues E (generation env i) (fs ! i) = Inr vals
               \<longrightarrow> (\<exists>r. callGeminiAPI (generation env i) = Inr r
                        \<and> generation_usage E (generation env i) (fs ! i) = Some (usage r))"
  proof (intro allI impI)
    fix i vals
    assume "generateFieldValues E (generation env i) (fs ! i) = Inr vals"
    from generateFieldValues_Inr [OF this] this
    show "\<exists>r. callGeminiAPI (generation env i) = Inr r
                        \<and> generation_usage E (generation env i) (fs ! i) = Some (usage r)"
      by (auto simp: generation_usage_def)
  qed
  from a r0 t f s show ?thesis by blast
qed

lemma example_parses:
  "ref_JSON_parse three_forms_text
     = Inr (JObj [(''forms'', JArr [JObj [(''formId'', JStr ''a'')], JObj [(''formId'', JStr ''b'')],
                                    JObj [(''formId'', JStr ''c'')]])])"
  "ref_JSON_parse values_text
     = Inr (JObj [(''values'', JObj [(''name'', JStr ''Sarah'')]),
                  (''metadata'', JObj [(''ok'', JBool True)])])"
  "ref_JSON_parse one_form_text = Inr (JObj [(''forms'', JArr [JObj [(''formId'', JStr ''a'')]])])"
  "ref_JSON_parse ''{\"forms\":[]}'' = Inr (JObj [(''forms'', JArr [])])"
  by code_simp+

lemma example_fences:
  "fence_json three_forms_text = None" "fence_plain three_forms_text = None"
  "fence_json values_text = None" "fence_plain values_text = None"
  "fence_json one_form_text = None" "fence_plain one_form_text = None"
  "fence_json ''{\"forms\":[]}'' = None" "fence_plain ''{\"forms\":[]}'' = None"
  by code_simp+

lemma ref_parse_reply:
  "fence_json t = None \<Longrightarrow> fence_plain t = None \<Longrightarrow> parse_reply ref_engine t = ref_JSON_parse t"
  by (simp add: parse_reply_def ref_engine_def)

lemma ok_call_reply:
  "callGeminiAPI (ok_call t p c) =
     Inr \<lparr>replyText = t, timeTaken = Fin 100, timestamp = ''2024-12-01T10:00:00.000Z'',
          usage = usage_of (Some \<lparr>promptTokenCount = Some (Fin (of_int p)),
                                   candidatesTokenCount = Some (Fin (of_int c)),
                                   totalTokenCount = Some (Fin (of_int (p + c)))\<rparr>)\<rparr>"
  by (simp add: callGeminiAPI_def ok_call_def)

lemma ok_call_inputTokens:
  "p \<noteq> 0 \<Longrightarrow>
   inputTokens (usage_of (Some \<lparr>promptTokenCount = Some (Fin (of_int p)),
                                   candidatesTokenCount = Some (Fin (of_int c)),
                                   totalTokenCount = Some (Fin (of_int (p + c)))\<rparr>)) = Fin (of_int p)"
  by (simp add: usage_of_def Let_def count_or0_def del: toFixed6.simps)

lemma fl_int_exact:
  assumes "0 < k" and "k < 2 ^ 53"
  shows "fl (of_int k) = Fin (of_int k)"
proof -
  define q :: rat where "q = of_int k"
  define e where "e = ilog2 q"
  have q1: "1 \<le> q" using assms(1) by (simp add: q_def)
  then have q0: "0 < q" by simp
  have lo: "2 powi e \<le> q" unfolding e_def by (rule ilog2_le [OF q0])
  have hi: "q < 2 powi (e + 1)" unfolding e_def by (rule ilog2_less [OF q0])
  have e0: "0 \<le> e"
  proof (rule ccontr)
    assume "\<not> 0 \<le> e"
    then have "(2::rat) powi (e + 1) \<le> 2 powi 0" by (intro power_int_increasing) simp_all
    with hi q1 show False by simp
  qed
  have q53: "q < 2 powi 53"
  proof -
    have "(of_int k :: rat) < of_int (2 ^ 53)" using assms(2) by (simp only: of_int_less_iff)
    then show ?thesis by (simp add: q_def)
  qed
  have e52: "e \<le> 52"
  proof (rule ccontr)
    assume "\<not> e \<le> 52"
    then have "(2::rat) powi 53 \<le> 2 powi e" by (intro power_int_increasing) simp_all
    with lo q53 show False by linarith
  qed
  define m where "m = k * 2 ^ nat (52 - e)"
  have p: "(2::rat) powi (52 - e) = 2 ^ nat (52 - e)"
    using e52 by (simp add: power_int_def)
  have inv: "(2::rat) powi (e - 52) * 2 powi (52 - e) = 1"
    by (simp add: power_int_add [symmetric])
  have d: "q / 2 powi (e - 52) = of_int m"
  proof -
    have "q / 2 powi (e - 52) = q * 2 powi (52 - e)"
      using inv by (simp add: field_simps)
    then show ?thesis by (simp add: p m_def q_def)
  qed
  have r: "round_even (q / 2 powi (e - 52)) = m"
    unfolding d by (rule round_even_cert) simp_all
  have "fl q = Fin (of_int m * 2 powi (e - 52))"
    using lo hi _ _ r by (rule fl_cert) (use e0 e52 in simp_all)
  also have "of_int m * (2::rat) powi (e - 52) = q"
    using d by (simp add: field_simps)
  finally show ?thesis by (simp add: q_def)
qed

lemma fl_110: "fl 110 = Fin 110"
  using fl_int_exact [of 110] by simp

lemma fl_120: "fl 120 = Fin 120"
  using fl_int_exact [of 120] by simp

lemma nz_Fin: "x \<noteq> 0 \<Longrightarrow> nz (Fin x) = Fin x"
  by (simp add: nz_def)

lemma inputTokens_foldl:
  "inputTokens (foldl add_usage a us)
     = foldl (\<lambda>x u. num_add x (nz (inputTokens u))) (inputTokens a) us"
  by (induction us arbitrary: a) (simp_all add: add_usage_def)

lemma inputTokens_summed:
  "inputTokens (summed_usage E env u0 fs)
     = foldl (\<lambda>x u. num_add x (nz (inputTokens u))) (nz (inputTokens u0))
         (List.map_filter (\<lambda>(i, form). generation_usage E (generation env i) form)
            (enumerate 0 fs))"
  by (simp add: summed_usage_def Let_def inputTokens_foldl)

lemma ref_extract:
  assumes "fence_json t = None" and "fence_plain t = None" and "ref_JSON_parse t = Inr pd"
  shows "extractForms ref_engine (ok_call t p c) =
           Inr (with_meta pd \<lparr>replyText = t, timeTaken = Fin 100,
                  timestamp = ''2024-12-01T10:00:00.000Z'',
                  usage = usage_of (Some \<lparr>promptTokenCount = Some (Fin (of_int p)),
                                           candidatesTokenCount = Some (Fin (of_int c)),
                                           totalTokenCount = Some (Fin (of_int (p + c)))\<rparr>)\<rparr>)"
  unfolding extractForms_def parsed_call_Inr [OF ok_call_reply]
  by (simp add: ref_parse_reply [OF assms(1,2)] assms(3))

lemma ref_generate:
  assumes "fence_json t = None" and "fence_plain t = None" and "ref_JSON_parse t = Inr pd"
    and "is_descriptor form"
  shows "generateFieldValues ref_engine (ok_call t p c) form =
           Inr (with_meta pd \<lparr>replyText = t, timeTaken = Fin 100,
                  timestamp = ''2024-12-01T10:00:00.000Z'',
                  usage = usage_of (Some \<lparr>promptTokenCount = Some (Fin (of_int p)),
                                           candidatesTokenCount = Some (Fin (of_int c)),
                                           totalTokenCount = Some (Fin (of_int (p + c)))\<rparr>)\<rparr>)"
  unfolding generateFieldValues_descriptor [OF assms(4)] parsed_call_Inr [OF ok_call_reply]
  by (simp add: ref_parse_reply [OF assms(1,2)] assms(3))

lemma get_forms_with_meta:
  "get_prop (with_meta (JObj [(''forms'', v)]) r) ''forms'' = v"
  by (simp add: with_meta_def get_prop_obj_lit)

theorem empty_forms_average_not_finite_witness:
  "extractForms ref_engine (extraction no_forms_env)
     = Inr (with_meta (JObj [(''forms'', JArr [])])
              \<lparr>replyText = ''{\"forms\":[]}'', timeTaken = Fin 100,
               timestamp = ''2024-12-01T10:00:00.000Z'',
               usage = usage_of (Some \<lparr>promptTokenCount = Some (Fin 100),
                                        candidatesTokenCount = Some (Fin 50),
                                        totalTokenCount = Some (Fin 150)\<rparr>)\<rparr>)
   \<and> now no_forms_env 3 = 1750 \<and> now no_forms_env 4 = 2000
   \<and> average_time ref_engine no_forms_env = Some (JNum PInf)"
proof -
  have e: "extractForms ref_engine (extraction no_forms_env)
     = Inr (with_meta (JObj [(''forms'', JArr [])])
              \<lparr>replyText = ''{\"forms\":[]}'', timeTaken = Fin 100,
               timestamp = ''2024-12-01T10:00:00.000Z'',
               usage = usage_of (Some \<lparr>promptTokenCount = Some (Fin 100),
                                        candidatesTokenCount = Some (Fin 50),
                                        totalTokenCount = Some (Fin 150)\<rparr>)\<rparr>)"
    using ref_extract [OF example_fences(7,8) example_parses(4), of 100 50]
    by (simp add: no_forms_env_def)
  have n: "now no_forms_env 3 = 1750 \<and> now no_forms_env 4 = 2000"
    by (simp add: no_forms_env_def)
  from empty_forms_average_not_finite [OF e get_forms_with_meta] n
  have "average_time ref_engine no_forms_env = Some (JNum PInf)"
    by (auto simp: average_time_def)
  with e n show ?thesis by (simp only: simp_thms)
qed

lemma three_extract:
  "extractForms ref_engine (extraction three_forms_env)
     = Inr (with_meta (JObj [(''forms'', JArr three_descriptors)])
              \<lparr>replyText = three_forms_text, timeTaken = Fin 100,
               timestamp = ''2024-12-01T10:00:00.000Z'',
               usage = usage_of (Some \<lparr>promptTokenCount = Some (Fin 100),
                                        candidatesTokenCount = Some (Fin 50),
                                        totalTokenCount = Some (Fin 150)\<rparr>)\<rparr>)"
  using ref_extract [OF example_fences(1,2) example_parses(1), of 100 50]
  by (simp add: three_forms_env_def three_descriptors_def)

lemma three_are_descriptors: "\<forall>f \<in> set three_descriptors. is_descriptor f"
  by (simp add: three_descriptors_def is_descriptor_def)

lemma three_generate:
  "generateFieldValues ref_engine (generation three_forms_env 0) (three_descriptors ! 0)
     = Inr (with_meta values_parsed values_reply)"
  "generateFieldValues ref_engine (generation three_forms_env 1) (three_descriptors ! 1)
     = Inl (Error ''Failed to generate field values: socket hang up'')"
  "generateFieldValues ref_engine (generation three_forms_env 2) (three_descriptors ! 2)
     = Inr (with_meta values_parsed values_reply)"
proof -
  show "generateFieldValues ref_engine (generation three_forms_env 0) (three_descriptors ! 0)
     = Inr (with_meta values_parsed values_reply)"
    using ref_generate [OF example_fences(3,4) example_parses(2), of "three_descriptors ! 0" 10 5]
    by (simp add: three_forms_env_def three_descriptors_def values_parsed_def values_reply_def
        is_descriptor_def)
  show "generateFieldValues ref_engine (generation three_forms_env 2) (three_descriptors ! 2)
     = Inr (with_meta values_parsed values_reply)"
    using ref_generate [OF example_fences(3,4) example_parses(2), of "three_descriptors ! 2" 10 5]
    by (simp add: three_forms_env_def three_descriptors_def values_parsed_def values_reply_def
        is_descriptor_def)
  show "generateFieldValues ref_engine (generation three_forms_env 1) (three_descriptors ! 1)
     = Inl (Error ''Failed to generate field values: socket hang up'')"
    by (simp add: generateFieldValues_def Let_def parsed_call_def callGeminiAPI_def
        three_forms_env_def three_descriptors_def)
qed




text \<open>
  The hypothesis on the descriptors is needed.  When the \<open>formId\<close> of a form is an
  object with a property \<open>toString\<close>, the log line of \<open>generateFieldValues\<close> throws
  before the call is made, the log line of the handler throws again, and the whole
  analysis fails, the second form with it.
\<close>

lemma unprintable_formId_rejects:
  "ref_JSON_parse unprintable_text
     = Inr (JObj [(''forms'', JArr [JObj [(''formId'', JObj [(''toString'', JNum (Fin 1))])],
                                    JObj [(''formId'', JStr ''b'')]])])
   \<and> generateFieldValues ref_engine (generation unprintable_env 0)
         (JObj [(''formId'', JObj [(''toString'', JNum (Fin 1))])]) = Inl TypeError
   \<and> form_entry ref_engine (generation unprintable_env 0)
         (JObj [(''formId'', JObj [(''toString'', JNum (Fin 1))])]) = Inl TypeError
   \<and> analyzeFormsComplete ref_engine unprintable_env = Inl TypeError"
proof -
  have p: "ref_JSON_parse unprintable_text
     = Inr (JObj [(''forms'', JArr [JObj [(''formId'', JObj [(''toString'', JNum (Fin 1))])],
                                    JObj [(''formId'', JStr ''b'')]])])"
    by code_simp
  have f: "fence_json unprintable_text = None" "fence_plain unprintable_text = None"
    by code_simp+
  have g: "generateFieldValues ref_engine c
         (JObj [(''formId'', JObj [(''toString'', JNum (Fin 1))])]) = Inl TypeError" for c
    by (simp add: generateFieldValues_def Let_def)
  have e: "form_entry ref_engine c
         (JObj [(''formId'', JObj [(''toString'', JNum (Fin 1))])]) = Inl TypeError" for c
    by (simp add: form_entry_def g)
  have x: "extractForms ref_engine (extraction unprintable_env)
     = Inr (with_meta (JObj [(''forms'', JArr [JObj [(''formId'', JObj [(''toString'', JNum (Fin 1))])],
                                               JObj [(''formId'', JStr ''b'')]])])
              \<lparr>replyText = unprintable_text, timeTaken = Fin 100,
               timestamp = ''2024-12-01T10:00:00.000Z'',
               usage = usage_of (Some \<lparr>promptTokenCount = Some (Fin 100),
                                        candidatesTokenCount = Some (Fin 50),
                                        totalTokenCount = Some (Fin 150)\<rparr>)\<rparr>)"
    using ref_extract [OF f p, of 100 50] by (simp add: unprintable_env_def)
  have a: "analyzeFormsComplete ref_engine unprintable_env = Inl TypeError"
    unfolding analyzeFormsComplete_def x sum.case get_forms_with_meta
    by (simp add: e)
  from p g e a show ?thesis by (simp only: simp_thms)
qed

lemma values_reply_call: "callGeminiAPI (ok_call values_text 10 5) = Inr values_reply"
  using ok_call_reply [of values_text 10 5] by (simp add: values_reply_def)

lemma values_reply_tokens: "inputTokens (usage values_reply) = Fin 10"
  using ok_call_inputTokens [of 10 5] by (simp add: values_reply_def)

lemma three_generation_usage:
  "generation_usage ref_engine (generation three_forms_env 0) (three_descriptors ! 0)
     = Some (usage values_reply)"
  "generation_usage ref_engine (generation three_forms_env 1) (three_descriptors ! 1) = None"
  "generation_usage ref_engine (generation three_forms_env 2) (three_descriptors ! 2)
     = Some (usage values_reply)"
proof -
  have g: "generation three_forms_env 0 = ok_call values_text 10 5"
    "generation three_forms_env 2 = ok_call values_text 10 5"
    by (simp_all add: three_forms_env_def)
  show "generation_usage ref_engine (generation three_forms_env 0) (three_descriptors ! 0)
     = Some (usage values_reply)"
    unfolding generation_usage_def three_generate(1)
    by (simp add: g values_reply_call)
  show "generation_usage ref_engine (generation three_forms_env 2) (three_descriptors ! 2)
     = Some (usage values_reply)"
    unfolding generation_usage_def three_generate(3)
    by (simp add: g values_reply_call)
  show "generation_usage ref_engine (generation three_forms_env 1) (three_descriptors ! 1) = None"
    unfolding generation_usage_def three_generate(2) by simp
qed

lemma three_contributions:
  "List.map_filter (\<lambda>(i, form). generation_usage ref_engine (generation three_forms_env i) form)
     (enumerate 0 three_descriptors) = [usage values_reply, usage values_reply]"
proof -
  have e: "enumerate 0 three_descriptors
           = [(0, three_descriptors ! 0), (1, three_descriptors ! 1), (2, three_descriptors ! 2)]"
    by (simp add: three_descriptors_def)
  show ?thesis
    unfolding e by (simp add: List.map_filter_simps three_generation_usage del: One_nat_def)
qed

lemma usage_aggregation_example:
  "reported_inputTokens (extraction three_forms_env) = Some (Fin 100)
   \<and> reported_inputTokens (generation three_forms_env 0) = Some (Fin 10)
   \<and> reported_inputTokens (generation three_forms_env 1) = None
   \<and> reported_inputTokens (generation three_forms_env 2) = Some (Fin 10)
   \<and> total_inputTokens ref_engine three_forms_env = Some (JNum (Fin 120))"
proof -
  from usage_aggregation [OF three_extract get_forms_with_meta three_are_descriptors]
  obtain res r0 where a: "analyzeFormsComplete ref_engine three_forms_env = Inr res"
    and r0: "callGeminiAPI (extraction three_forms_env) = Inr r0"
    and t: "get_prop res ''totalUsage''
              = usage_obj (summed_usage ref_engine three_forms_env (usage r0) three_descriptors)"
    by blast
  have x: "extraction three_forms_env = ok_call three_forms_text 100 50"
    by (simp add: three_forms_env_def)
  have u0: "inputTokens (usage r0) = Fin 100"
    using r0 ok_call_inputTokens [of 100 50] unfolding x ok_call_reply by auto
  have s: "inputTokens (summed_usage ref_engine three_forms_env (usage r0) three_descriptors) = Fin 120"
    unfolding inputTokens_summed three_contributions u0
    by (simp add: values_reply_tokens nz_Fin fl_110 fl_120)
  have 1: "total_inputTokens ref_engine three_forms_env = Some (JNum (Fin 120))"
    by (simp add: total_inputTokens_def a t usage_obj_props s)
  have 2: "reported_inputTokens (extraction three_forms_env) = Some (Fin 100)"
    using u0 r0 by (simp add: reported_inputTokens_def)
  have g: "generation three_forms_env 0 = ok_call values_text 10 5"
    "generation three_forms_env 2 = ok_call values_text 10 5"
    by (simp_all add: three_forms_env_def)
  have 3: "reported_inputTokens (generation three_forms_env 0) = Some (Fin 10)"
    "reported_inputTokens (generation three_forms_env 2) = Some (Fin 10)"
    by (simp_all add: reported_inputTokens_def g values_reply_call values_reply_tokens)
  have 4: "reported_inputTokens (generation three_forms_env 1) = None"
    by (simp add: reported_inputTokens_def three_forms_env_def callGeminiAPI_def)
  from 1 2 3 4 show ?thesis by (simp only: simp_thms)
qed

lemma one_extract:
  "extractForms ref_engine (extraction unparsable_env)
     = Inr (with_meta (JObj [(''forms'', JArr [JObj [(''formId'', JStr ''a'')]])])
              \<lparr>replyText = one_form_text, timeTaken = Fin 100,
               timestamp = ''2024-12-01T10:00:00.000Z'',
               usage = usage_of (Some \<lparr>promptTokenCount = Some (Fin 100),
                                        candidatesTokenCount = Some (Fin 50),
                                        totalTokenCount = Some (Fin 150)\<rparr>)\<rparr>)"
  using ref_extract [OF example_fences(5,6) example_parses(3), of 100 50]
  by (simp add: unparsable_env_def)

lemma unparsable_generate:
  "generateFieldValues ref_engine (generation unparsable_env 0) (JObj [(''formId'', JStr ''a'')])
     = Inl (Error (''Failed to generate field values: '' @ syntax_error_text))"
proof -
  have g: "generation unparsable_env 0 = ok_call ''not json at all'' 10 5"
    by (simp add: unparsable_env_def)
  have p: "parse_reply ref_engine ''not json at all'' = Inl syntax_error_text"
    using ref_parse_reply [OF fences_of_examples(4,5)] parse_not_json by simp
  have d: "is_descriptor (JObj [(''formId'', JStr ''a'')])"
    by (simp add: is_descriptor_def)
  show ?thesis
    unfolding generateFieldValues_descriptor [OF d] g parsed_call_Inr [OF ok_call_reply]
    by (simp add: p)
qed

text \<open>
  Claim C4 at a run with one form whose call answers, reporting 10 input tokens, with a
  reply that is not JSON.  The value generation of the form fails in the parsing step,
  after the call has returned its usage; the handler of \<open>generateFieldValues\<close> rethrows
  with the message alone, so that usage is lost, and the total counts the 100 input
  tokens of the extraction alone, where the claim gives 110.
\<close>

theorem failed_call_usage_dropped:
  "reported_inputTokens (extraction unparsable_env) = Some (Fin 100)
   \<and> reported_inputTokens (generation unparsable_env 0) = Some (Fin 10)
   \<and> generateFieldValues ref_engine (generation unparsable_env 0) (JObj [(''formId'', JStr ''a'')])
       = Inl (Error (''Failed to generate field values: '' @ syntax_error_text))
   \<and> total_inputTokens ref_engine unparsable_env = Some (JNum (Fin 100))"
proof -
  have x: "extraction unparsable_env = ok_call one_form_text 100 50"
    and g: "generation unparsable_env 0 = ok_call ''not json at all'' 10 5"
    by (simp_all add: unparsable_env_def)
  have r0: "callGeminiAPI (extraction unparsable_env)
            = Inr \<lparr>replyText = one_form_text, timeTaken = Fin 100,
               timestamp = ''2024-12-01T10:00:00.000Z'',
               usage = usage_of (Some \<lparr>promptTokenCount = Some (Fin 100),
                                        candidatesTokenCount = Some (Fin 50),
                                        totalTokenCount = Some (Fin 150)\<rparr>)\<rparr>"
    unfolding x using ok_call_reply [of one_form_text 100 50] by simp
  have d: "\<forall>f \<in> set [JObj [(''formId'', JStr ''a'')]]. is_descriptor f"
    by (simp add: is_descriptor_def)
  note a = analyze_descriptors [OF one_extract get_forms_with_meta d r0]
  have gu: "generation_usage ref_engine (generation unparsable_env 0) (JObj [(''formId'', JStr ''a'')])
            = None"
    unfolding generation_usage_def unparsable_generate by simp
  have u0: "inputTokens (usage_of (Some \<lparr>promptTokenCount = Some (Fin 100),
                                        candidatesTokenCount = Some (Fin 50),
                                        totalTokenCount = Some (Fin 150)\<rparr>)) = Fin 100"
    using ok_call_inputTokens [of 100 50] by simp
  have s: "inputTokens (summed_usage ref_engine unparsable_env
                          (usage_of (Some \<lparr>promptTokenCount = Some (Fin 100),
                                        candidatesTokenCount = Some (Fin 50),
                                        totalTokenCount = Some (Fin 150)\<rparr>))
                          [JObj [(''formId'', JStr ''a'')]]) = Fin 100"
    unfolding inputTokens_summed u0
    by (simp add: List.map_filter_simps gu nz_Fin)
  have 1: "total_inputTokens ref_engine unparsable_env = Some (JNum (Fin 100))"
    unfolding total_inputTokens_def a
    by (simp add: get_prop_obj_lit usage_obj_props s)
  have 2: "reported_inputTokens (extraction unparsable_env) = Some (Fin 100)"
    unfolding reported_inputTokens_def r0 by (simp add: u0)
  have 3: "reported_inputTokens (generation unparsable_env 0) = Some (Fin 10)"
    unfolding reported_inputTokens_def g ok_call_reply
    using ok_call_inputTokens [of 10 5] by simp
  from 1 2 3 unparsable_generate show ?thesis by (simp only: simp_thms)
qed

end
